theory Spec2Isabelle
  imports Main "HOL-Library.Sublist"
begin

section \<open>Wiki page search: the index glue of \<open>wiki/wiki/doctype/wiki_page/search.py\<close>\<close>

text \<open>
  The module keeps one full-text index per wiki space in step with the wiki pages and
  builds the query sent to the search service. Every function of the module is embedded
  below under its own name. Python strings are \<open>string\<close> (lists of characters); the
  database rows, the Redis cache and the search service are outside the module and
  enter as parameters or as an explicit state.
\<close>

subsection \<open>Python string operations used by the module\<close>

text \<open>\<open>s.startswith(p)\<close> and \<open>s.endswith(p)\<close>.\<close>

definition startswith :: "string \<Rightarrow> string \<Rightarrow> bool" where
  "startswith s p = prefix p s"

definition endswith :: "string \<Rightarrow> string \<Rightarrow> bool" where
  "endswith s p = prefix (rev p) (rev s)"

text \<open>\<open>sub in s\<close> on strings: \<open>sub\<close> occurs somewhere in \<open>s\<close> as a contiguous run.\<close>

fun py_in :: "string \<Rightarrow> string \<Rightarrow> bool" where
  "py_in sub [] = (sub = [])"
| "py_in sub (c # cs) = (prefix sub (c # cs) \<or> py_in sub cs)"

text \<open>
  \<open>s.replace(old, new)\<close>: every occurrence of \<open>old\<close>, found from the left and not
  overlapping, is replaced. With an empty \<open>old\<close> Python puts \<open>new\<close> before every
  character and at the end.
\<close>

function replace_from :: "string \<Rightarrow> string \<Rightarrow> string \<Rightarrow> string" where
  "replace_from old new [] = []"
| "replace_from old new (c # cs) =
     (if old \<noteq> [] \<and> prefix old (c # cs)
      then new @ replace_from old new (drop (length old) (c # cs))
      else c # replace_from old new cs)"
  by pat_completeness auto
termination
  by (relation "measure (\<lambda>(old, new, s). length s)") auto

definition py_replace :: "string \<Rightarrow> string \<Rightarrow> string \<Rightarrow> string" where
  "py_replace s old new =
     (if old = [] then new @ concat (map (\<lambda>c. c # new) s) else replace_from old new s)"

text \<open>
  \<open>s.split(sep)\<close> for a separator of one character: the pieces between the
  separators, empty pieces included, so the result is never empty.
\<close>

fun py_split :: "string \<Rightarrow> char \<Rightarrow> string list" where
  "py_split [] sep = [[]]"
| "py_split (c # cs) sep =
     (if c = sep then [] # py_split cs sep
      else (case py_split cs sep of
              [] \<Rightarrow> [[c]]
            | t # ts \<Rightarrow> (c # t) # ts))"

text \<open>\<open>sep.join(parts)\<close>.\<close>

fun py_join :: "string \<Rightarrow> string list \<Rightarrow> string" where
  "py_join sep [] = []"
| "py_join sep [p] = p"
| "py_join sep (p # q # ps) = p @ sep @ py_join sep (q # ps)"

text \<open>
  An f-string prints the value \<open>None\<close> as the text \<open>None\<close>. A space that may be
  \<open>None\<close> is a \<open>string option\<close>.
\<close>

fun fmt :: "string option \<Rightarrow> string" where
  "fmt None = ''None''"
| "fmt (Some s) = s"

subsection \<open>The space of a path\<close>

text \<open>
  \<open>get_space_route(path)\<close>: the routes of all wiki spaces are read from the database
  (here the list \<open>spaces\<close>, in the order the database returns them); the first one
  that occurs in \<open>path\<close> is returned. When the loop ends without a hit the Python
  function returns \<open>None\<close>.
\<close>

fun get_space_route :: "string list \<Rightarrow> string \<Rightarrow> string option" where
  "get_space_route [] path = None"
| "get_space_route (space # spaces) path =
     (if py_in space path then Some space else get_space_route spaces path)"

text \<open>
  The rule of the specification, written from its words: among the known routes that
  are a prefix of the path, the longest one (the earliest of them on a tie); no
  partition when no route is a prefix.
\<close>

definition spec_longest_prefix_route :: "string list \<Rightarrow> string \<Rightarrow> string option" where
  "spec_longest_prefix_route spaces path =
     (case filter (\<lambda>s. prefix s path) spaces of
        [] \<Rightarrow> None
      | m # ms \<Rightarrow> Some (fold (\<lambda>s best. if length best < length s then s else best) ms m))"

subsection \<open>The query sent to the search service\<close>

text \<open>
  \<open>search(query, path, space)\<close>, first step: a caller that gives no space (\<open>None\<close> or
  the empty string, both false in Python) gets the space of the path.
\<close>

definition search_space :: "string list \<Rightarrow> string \<Rightarrow> string option \<Rightarrow> string option" where
  "search_space spaces path space =
     (if space = None \<or> space = Some [] then get_space_route spaces path else space)"

text \<open>
  \<open>search\<close>, the lines that build \<open>search_query\<close>. \<open>clean_query\<close> is a method of
  \<open>WikiSearch\<close>, defined outside this module, and is a parameter here. The cleaned
  query is split at every single space character; one part gets a trailing \<open>*\<close> unless
  it ends with one, several parts are each put between \<open>%%\<close> and \<open>%%\<close> (an f-string
  keeps \<open>%%\<close> as two characters) and joined with one space.
\<close>

definition normalize_query :: "(string \<Rightarrow> string) \<Rightarrow> string \<Rightarrow> string" where
  "normalize_query clean_query query =
     (let search_query = clean_query query;
          query_parts = py_split search_query (CHR '' '');
          search_query =
            (if length query_parts = 1 \<and> \<not> endswith (query_parts ! 0) ''*''
             then (query_parts ! 0) @ ''*''
             else search_query);
          search_query =
            (if length query_parts > 1
             then py_join '' '' (map (\<lambda>q. ''%%'' @ q @ ''%%'') query_parts)
             else search_query)
      in search_query)"

text \<open>The query string handed to the search service.\<close>

definition search_query_string :: "(string \<Rightarrow> string) \<Rightarrow> string \<Rightarrow> string" where
  "search_query_string clean_query query =
     ''@title|content:('' @ normalize_query clean_query query @ '')''"

text \<open>
  The normalizer of the specification, written from its words: the cleaned query is
  split on whitespace into terms (runs of whitespace separate, as Python's \<open>split()\<close>
  without argument does); exactly one term gets the wildcard marker unless it ends
  with one; more than one term are each wrapped in the fuzzy marker and joined with
  single spaces.
\<close>

definition spec_is_whitespace :: "char \<Rightarrow> bool" where
  "spec_is_whitespace c = (c \<in> {CHR '' '', CHR 0x09, CHR 0x0A, CHR 0x0B, CHR 0x0C, CHR 0x0D})"

fun spec_whitespace_terms :: "string \<Rightarrow> string list" where
  "spec_whitespace_terms [] = []"
| "spec_whitespace_terms (c # cs) =
     (if spec_is_whitespace c then spec_whitespace_terms cs
      else (case cs of
              [] \<Rightarrow> [[c]]
            | d # _ \<Rightarrow>
                if spec_is_whitespace d then [c] # spec_whitespace_terms cs
                else (case spec_whitespace_terms cs of
                        [] \<Rightarrow> [[c]]
                      | t # ts \<Rightarrow> (c # t) # ts)))"

definition spec_normalize :: "string \<Rightarrow> string" where
  "spec_normalize cleaned =
     (case spec_whitespace_terms cleaned of
        [t] \<Rightarrow> (if suffix ''*'' t then t else t @ ''*'')
      | ts \<Rightarrow> py_join '' '' (map (\<lambda>t. ''%%'' @ t @ ''%%'') ts))"

subsection \<open>Wiki pages and the pages of a space\<close>

text \<open>
  A row of \<open>Wiki Page\<close> as the module reads it: \<open>name\<close> (the document id),
  \<open>title\<close>, \<open>content\<close> and \<open>route\<close>, all strings. \<open>remove_index\<close> builds a
  record with \<open>name\<close> and \<open>route\<close> only.
\<close>

record doc_ref =
  name :: string
  route :: string

record wiki_page = doc_ref +
  title :: string
  content :: string

text \<open>
  The list comprehension \<open>records_to_index\<close> of \<open>rebuild_index\<close>: the pages whose
  route is the space route followed by \<open>/\<close>, or starts with that and, once every
  occurrence of it is replaced by the empty string, does not start with \<open>v\<close>.
\<close>

definition records_to_index :: "wiki_page list \<Rightarrow> string \<Rightarrow> wiki_page list" where
  "records_to_index wiki_pages space =
     filter (\<lambda>d. space @ ''/'' = route d \<or>
                  (startswith (route d) (space @ ''/'') \<and>
                   \<not> startswith (py_replace (route d) (space @ ''/'') []) ''v''))
       wiki_pages"

text \<open>
  The membership rule of the specification, written from its words: the route is the
  partition route followed by \<open>/\<close>, or starts with it and the segment right under the
  partition is not a version marker. The specification's only example of a version
  marker is \<open>v2\<close>: the letter \<open>v\<close> followed by a digit.
\<close>

definition spec_version_marker :: "string \<Rightarrow> bool" where
  "spec_version_marker seg =
     (case seg of
        c # d # _ \<Rightarrow> c = CHR ''v'' \<and> d \<in> set ''0123456789''
      | _ \<Rightarrow> False)"

definition spec_first_segment :: "string \<Rightarrow> string" where
  "spec_first_segment s = takeWhile (\<lambda>c. c \<noteq> CHR ''/'') s"

definition spec_under_partition :: "string \<Rightarrow> string \<Rightarrow> bool" where
  "spec_under_partition space r =
     (r = space @ ''/'' \<or>
      (prefix (space @ ''/'') r \<and>
       \<not> spec_version_marker (spec_first_segment (drop (length (space @ ''/'')) r))))"

subsection \<open>The world outside the module\<close>

text \<open>
  The Redis client raises \<open>ResponseError\<close> when the server rejects a command; the
  module catches that class and no other. Every other exception is \<open>OtherError\<close>.
  Both carry their message.
\<close>

datatype exn = ResponseError string | OtherError string

type_synonym hash_fields = "(string \<times> string) list"

text \<open>
  The commands the module sends to Redis and to the search service on it, with their
  arguments: \<open>set_value(key, val)\<close>; \<open>ft(name).dropindex(delete_documents)\<close>;
  \<open>ft(name).create_index(schema, definition)\<close> with the key prefix of the
  definition; \<open>hset(key, mapping)\<close>; \<open>ft(name).delete_document(key)\<close>.
\<close>

datatype call =
    SetValue string bool
  | DropIndex string bool
  | CreateIndex string "(string \<times> nat) list" string
  | HSet string hash_fields
  | DeleteDocument "string option" string

datatype out = Printed string | ProgressBar string nat nat

datatype job = Job string string

text \<open>
  The state the module acts on: the cache (the module keeps one boolean in it), the
  state of the search service, the output written so far and the jobs enqueued so
  far. \<open>calls\<close> records every command sent together with the exception it raised, if
  any; it is a history kept for stating properties and nothing reads it.
\<close>

record 'b world =
  cache :: "string \<rightharpoonup> bool"
  search_service :: 'b
  calls :: "(call \<times> exn option) list"
  stdout :: "out list"
  queue :: "job list"

text \<open>
  What the module takes from the framework and from Redis: \<open>make_key\<close> (with the
  decoding of its result), \<open>strip_html_tags\<close>, whether a request is being served,
  the site name, and the four commands as functions from the state of the service
  to the exception raised, if any, and the new state.
\<close>

record 'b env =
  make_key :: "string \<Rightarrow> string"
  strip_html_tags :: "string \<Rightarrow> string"
  has_request :: bool
  site :: string
  ft_dropindex :: "string \<Rightarrow> bool \<Rightarrow> 'b \<Rightarrow> exn option \<times> 'b"
  ft_create_index :: "string \<Rightarrow> (string \<times> nat) list \<Rightarrow> string \<Rightarrow> 'b \<Rightarrow> exn option \<times> 'b"
  ft_delete_document :: "string option \<Rightarrow> string \<Rightarrow> 'b \<Rightarrow> exn option \<times> 'b"
  hset :: "string \<Rightarrow> hash_fields \<Rightarrow> 'b \<Rightarrow> exn option \<times> 'b"

definition PREFIX :: string where
  "PREFIX = ''wiki_page_search_doc''"

definition in_progress_key :: string where
  "in_progress_key = ''wiki_page_index_in_progress''"

text \<open>The schema of \<open>rebuild_index\<close>: the text fields \<open>title\<close> (weight 3) and \<open>content\<close>.\<close>

definition schema :: "(string \<times> nat) list" where
  "schema = [(''title'', 3), (''content'', 1)]"

definition service_call ::
  "call \<Rightarrow> ('b \<Rightarrow> exn option \<times> 'b) \<Rightarrow> 'b world \<Rightarrow> exn option \<times> 'b world" where
  "service_call c f w =
     (case f (search_service w) of
        (r, b) \<Rightarrow> (r, w\<lparr>search_service := b, calls := calls w @ [(c, r)]\<rparr>))"

definition set_value :: "string \<Rightarrow> bool \<Rightarrow> 'b world \<Rightarrow> 'b world" where
  "set_value key val w =
     w\<lparr>cache := (cache w)(key \<mapsto> val), calls := calls w @ [(SetValue key val, None)]\<rparr>"

definition get_value :: "string \<Rightarrow> 'b world \<Rightarrow> bool option" where
  "get_value key w = cache w key"

subsection \<open>Index lifecycle\<close>

text \<open>
  \<open>drop_index(space)\<close>: the index is dropped with its documents; a
  \<open>ResponseError\<close> is caught and dropped, any other exception leaves the function.
\<close>

definition drop_index :: "'b env \<Rightarrow> string \<Rightarrow> 'b world \<Rightarrow> exn option \<times> 'b world" where
  "drop_index env space w =
     (case service_call (DropIndex space True) (ft_dropindex env space True) w of
        (None, w') \<Rightarrow> (None, w')
      | (Some (ResponseError m), w') \<Rightarrow> (None, w')
      | (Some (OtherError m), w') \<Rightarrow> (Some (OtherError m), w'))"

text \<open>
  \<open>create_index_for_records(records, space)\<close>: the loop over \<open>enumerate(records)\<close>,
  with \<open>n\<close> the length of the whole list and \<open>i\<close> the position. Outside a request
  and with more than ten records the progress bar is written. Each record is stored
  with \<open>hset\<close>; an exception of \<open>hset\<close> ends the loop and leaves the function.
\<close>

fun index_records ::
  "'b env \<Rightarrow> string option \<Rightarrow> nat \<Rightarrow> nat \<Rightarrow> wiki_page list \<Rightarrow> 'b world \<Rightarrow> exn option \<times> 'b world" where
  "index_records env space n i [] w = (None, w)"
| "index_records env space n i (d # ds) w =
     (let w1 = (if \<not> has_request env \<and> n > 10
                then w\<lparr>stdout := stdout w @
                       [ProgressBar (''Indexing Wiki Pages - '' @ fmt space) i n]\<rparr>
                else w);
          key = make_key env (PREFIX @ fmt space @ '':'' @ name d);
          mapping = [(''title'', title d),
                     (''content'', strip_html_tags env (content d)),
                     (''route'', route d)]
      in case service_call (HSet key mapping) (hset env key mapping) w1 of
           (None, w2) \<Rightarrow> index_records env space n (Suc i) ds w2
         | (Some e, w2) \<Rightarrow> (Some e, w2))"

definition create_index_for_records ::
  "'b env \<Rightarrow> wiki_page list \<Rightarrow> string option \<Rightarrow> 'b world \<Rightarrow> exn option \<times> 'b world" where
  "create_index_for_records env records space w =
     index_records env space (length records) 0 records w"

text \<open>
  \<open>remove_index_for_records(records, space)\<close>: each record's key is deleted from the
  index of the space; a \<open>ResponseError\<close> is caught and the loop goes on, any other
  exception leaves the function.
\<close>

fun remove_index_for_records ::
  "'b env \<Rightarrow> 'a doc_ref_scheme list \<Rightarrow> string option \<Rightarrow> 'b world \<Rightarrow> exn option \<times> 'b world" where
  "remove_index_for_records env [] space w = (None, w)"
| "remove_index_for_records env (d # ds) space w =
     (let key = make_key env (PREFIX @ fmt space @ '':'' @ name d)
      in case service_call (DeleteDocument space key) (ft_delete_document env space key) w of
           (None, w') \<Rightarrow> remove_index_for_records env ds space w'
         | (Some (ResponseError m), w') \<Rightarrow> remove_index_for_records env ds space w'
         | (Some (OtherError m), w') \<Rightarrow> (Some (OtherError m), w'))"

text \<open>
  \<open>update_index(doc)\<close> and \<open>remove_index(doc)\<close>: the record is built from the
  document, the space is whatever \<open>get_space_route\<close> returns (\<open>None\<close> included), and
  the record is stored or removed under it.
\<close>

definition update_index ::
  "'b env \<Rightarrow> string list \<Rightarrow> wiki_page \<Rightarrow> 'b world \<Rightarrow> exn option \<times> 'b world" where
  "update_index env spaces doc w =
     (let record = \<lparr>name = name doc, route = route doc,
                     title = title doc, content = content doc\<rparr>;
          space = get_space_route spaces (route doc)
      in create_index_for_records env [record] space w)"

definition remove_index ::
  "'b env \<Rightarrow> string list \<Rightarrow> wiki_page \<Rightarrow> 'b world \<Rightarrow> exn option \<times> 'b world" where
  "remove_index env spaces doc w =
     (let record = \<lparr>name = name doc, route = route doc\<rparr>;
          space = get_space_route spaces (route doc)
      in remove_index_for_records env [record] space w)"

subsection \<open>Rebuilding every index\<close>

text \<open>
  The body of the \<open>try\<close> of \<open>rebuild_index\<close> for one space: drop the index, create
  it over the key prefix of the space, store the pages of the space. The first
  exception ends the body.
\<close>

definition rebuild_space ::
  "'b env \<Rightarrow> wiki_page list \<Rightarrow> string \<Rightarrow> 'b world \<Rightarrow> exn option \<times> 'b world" where
  "rebuild_space env wiki_pages space w =
     (case drop_index env space w of
        (Some e, w1) \<Rightarrow> (Some e, w1)
      | (None, w1) \<Rightarrow>
          (let index_prefix = make_key env (PREFIX @ space) @ '':''
           in case service_call (CreateIndex space schema index_prefix)
                     (ft_create_index env space schema index_prefix) w1 of
                (Some e, w2) \<Rightarrow> (Some e, w2)
              | (None, w2) \<Rightarrow>
                  create_index_for_records env (records_to_index wiki_pages space)
                    (Some space) w2))"

text \<open>
  The loop over the spaces: a \<open>ResponseError\<close> of the body is printed and the loop
  goes on with the next space; any other exception leaves the loop and the function.
\<close>

fun rebuild_spaces ::
  "'b env \<Rightarrow> wiki_page list \<Rightarrow> string list \<Rightarrow> 'b world \<Rightarrow> exn option \<times> 'b world" where
  "rebuild_spaces env wiki_pages [] w = (None, w)"
| "rebuild_spaces env wiki_pages (space # spaces) w =
     (case rebuild_space env wiki_pages space w of
        (None, w') \<Rightarrow> rebuild_spaces env wiki_pages spaces w'
      | (Some (ResponseError m), w') \<Rightarrow>
          rebuild_spaces env wiki_pages spaces (w'\<lparr>stdout := stdout w' @ [Printed m]\<rparr>)
      | (Some (OtherError m), w') \<Rightarrow> (Some (OtherError m), w'))"

text \<open>
  \<open>rebuild_index()\<close>: the flag is set, the spaces and pages are read from the
  database (the lists \<open>spaces\<close> and \<open>wiki_pages\<close>), every space is rebuilt, the flag
  is cleared. There is no \<open>finally\<close>: an exception that leaves the loop leaves the
  flag set.
\<close>

definition rebuild_index ::
  "'b env \<Rightarrow> string list \<Rightarrow> wiki_page list \<Rightarrow> 'b world \<Rightarrow> exn option \<times> 'b world" where
  "rebuild_index env spaces wiki_pages w =
     (case rebuild_spaces env wiki_pages spaces (set_value in_progress_key True w) of
        (Some e, w') \<Rightarrow> (Some e, w')
      | (None, w') \<Rightarrow> (None, set_value in_progress_key False w'))"

text \<open>
  \<open>rebuild_index_in_background()\<close>: unless the cached flag is true (a missing value
  is false in Python), a line is printed and \<open>rebuild_index\<close> is put on the queue
  \<open>long\<close>.
\<close>

definition rebuild_index_in_background :: "'b env \<Rightarrow> 'b world \<Rightarrow> 'b world" where
  "rebuild_index_in_background env w =
     (if get_value in_progress_key w \<noteq> Some True
      then w\<lparr>stdout := stdout w @
                [Printed (''Queued rebuilding of search index for '' @ site env)],
              queue := queue w @ [Job ''rebuild_index'' ''long'']\<rparr>
      else w)"

subsection \<open>Reading the history of commands\<close>

text \<open>
  The messages of the response errors raised by the commands other than the drop
  command (whose response errors \<open>drop_index\<close> drops), in order.
\<close>

definition response_errors :: "(call \<times> exn option) list \<Rightarrow> string list" where
  "response_errors tr =
     concat (map (\<lambda>(c, r). case c of
                              DropIndex s dd \<Rightarrow> []
                            | _ \<Rightarrow> (case r of Some (ResponseError m) \<Rightarrow> [m] | _ \<Rightarrow> [])) tr)"

definition printed :: "out list \<Rightarrow> string list" where
  "printed os = concat (map (\<lambda>out. case out of Printed m \<Rightarrow> [m] | _ \<Rightarrow> []) os)"

text \<open>
  What a command does to the service: the function of the environment that the
  command names. \<open>SetValue\<close> goes to the cache and leaves the service as it is.
\<close>

fun run_command :: "'b env \<Rightarrow> call \<Rightarrow> 'b \<Rightarrow> exn option \<times> 'b" where
  "run_command env (SetValue k v) b = (None, b)"
| "run_command env (DropIndex s dd) b = ft_dropindex env s dd b"
| "run_command env (CreateIndex s sch p) b = ft_create_index env s sch p b"
| "run_command env (HSet k f) b = hset env k f b"
| "run_command env (DeleteDocument i k) b = ft_delete_document env i k b"

text \<open>The state of the service after the commands of a history, sent in order.\<close>

fun replay :: "'b env \<Rightarrow> (call \<times> exn option) list \<Rightarrow> 'b \<Rightarrow> 'b" where
  "replay env [] b = b"
| "replay env ((c, r) # tr) b = replay env tr (snd (run_command env c b))"

text \<open>
  A history whose recorded outcomes are the answers of the service: each command,
  sent in the state the commands before it left, raised what the history records.
\<close>

fun answers :: "'b env \<Rightarrow> (call \<times> exn option) list \<Rightarrow> 'b \<Rightarrow> bool" where
  "answers env [] b = True"
| "answers env ((c, r) # tr) b =
     (r = fst (run_command env c b) \<and> answers env tr (snd (run_command env c b)))"

text \<open>The \<open>hset\<close> command that stores the page \<open>d\<close> under the space.\<close>

definition hset_command :: "'b env \<Rightarrow> string option \<Rightarrow> wiki_page \<Rightarrow> call" where
  "hset_command env space d =
     HSet (make_key env (PREFIX @ fmt space @ '':'' @ name d))
          [(''title'', title d),
           (''content'', strip_html_tags env (content d)),
           (''route'', route d)]"

text \<open>
  A history that sends the given commands in order and stops right after the first
  one that raised: every command before the last succeeded, and all commands were
  sent unless one raised.
\<close>

fun sent_until_error :: "call list \<Rightarrow> (call \<times> exn option) list \<Rightarrow> bool" where
  "sent_until_error [] tr = (tr = [])"
| "sent_until_error (c # cs) [] = False"
| "sent_until_error (c # cs) ((c', r) # tr) =
     (c' = c \<and> (case r of None \<Rightarrow> sent_until_error cs tr | Some e \<Rightarrow> tr = []))"

text \<open>
  The history of the rebuild of one space: the index is dropped with its documents,
  whatever the drop command answers the index is then created with the schema over
  the key prefix of the space, and if that succeeded the pages of the space are
  stored in order until one is refused.
\<close>

fun partition_history ::
  "'b env \<Rightarrow> wiki_page list \<Rightarrow> string \<Rightarrow> (call \<times> exn option) list \<Rightarrow> bool" where
  "partition_history env wiki_pages space (dropped # (created, r) # stored) =
     (fst dropped = DropIndex space True \<and>
      created = CreateIndex space schema (make_key env (PREFIX @ space) @ '':'') \<and>
      (case r of
         None \<Rightarrow> sent_until_error
                   (map (hset_command env (Some space)) (records_to_index wiki_pages space))
                   stored
       | Some e \<Rightarrow> stored = []))"
| "partition_history env wiki_pages space tr = False"

text \<open>A command that raises no exception other than \<open>ResponseError\<close>, whatever the state.\<close>

definition only_response_errors :: "('b \<Rightarrow> exn option \<times> 'b) \<Rightarrow> bool" where
  "only_response_errors f = (\<forall>b m. fst (f b) \<noteq> Some (OtherError m))"

text \<open>The same for the three commands \<open>rebuild_index\<close> sends to the service.\<close>

definition rebuild_only_response_errors :: "'b env \<Rightarrow> bool" where
  "rebuild_only_response_errors env =
     ((\<forall>s dd. only_response_errors (ft_dropindex env s dd)) \<and>
      (\<forall>s sch p. only_response_errors (ft_create_index env s sch p)) \<and>
      (\<forall>k f. only_response_errors (hset env k f)))"

subsection \<open>A small search service for running the module\<close>

text \<open>
  The service and the framework functions are not part of the module. To run the
  functions above on concrete inputs, this is a service that answers as the
  specification describes its backend: index names with their key prefixes, hashes by
  key, and keys that hold a plain string (on which \<open>hset\<close> is rejected). Dropping or
  querying an unknown index and deleting an unknown document are response errors; an
  index name that is \<open>None\<close> is refused by the client before it is sent.
\<close>

record service =
  indexes :: "(string \<times> string) list"
  hashes :: "(string \<times> hash_fields) list"
  plain_keys :: "string list"

definition mem_dropindex :: "string \<Rightarrow> bool \<Rightarrow> service \<Rightarrow> exn option \<times> service" where
  "mem_dropindex idx delete_documents m =
     (case map_of (indexes m) idx of
        None \<Rightarrow> (Some (ResponseError ''Unknown Index name''), m)
      | Some p \<Rightarrow>
          (None, m\<lparr>indexes := filter (\<lambda>(i, q). i \<noteq> idx) (indexes m),
                   hashes := (if delete_documents
                              then filter (\<lambda>(k, f). \<not> prefix p k) (hashes m)
                              else hashes m)\<rparr>))"

definition mem_create_index ::
  "string \<Rightarrow> (string \<times> nat) list \<Rightarrow> string \<Rightarrow> service \<Rightarrow> exn option \<times> service" where
  "mem_create_index idx sch p m =
     (case map_of (indexes m) idx of
        Some q \<Rightarrow> (Some (ResponseError ''Index already exists''), m)
      | None \<Rightarrow> (None, m\<lparr>indexes := indexes m @ [(idx, p)]\<rparr>))"

definition mem_hset :: "string \<Rightarrow> hash_fields \<Rightarrow> service \<Rightarrow> exn option \<times> service" where
  "mem_hset key mapping m =
     (if key \<in> set (plain_keys m)
      then (Some (ResponseError ''WRONGTYPE''), m)
      else (None, m\<lparr>hashes := filter (\<lambda>(k, f). k \<noteq> key) (hashes m) @ [(key, mapping)]\<rparr>))"

definition mem_delete_document ::
  "string option \<Rightarrow> string \<Rightarrow> service \<Rightarrow> exn option \<times> service" where
  "mem_delete_document idx key m =
     (case idx of
        None \<Rightarrow> (Some (OtherError ''DataError''), m)
      | Some i \<Rightarrow>
          (case map_of (indexes m) i of
             None \<Rightarrow> (Some (ResponseError ''Unknown Index name''), m)
           | Some p \<Rightarrow>
               (case map_of (hashes m) key of
                  None \<Rightarrow> (Some (ResponseError ''Document not found''), m)
                | Some f \<Rightarrow> (None, m\<lparr>hashes := filter (\<lambda>(k, f). k \<noteq> key) (hashes m)\<rparr>))))"

text \<open>
  \<open>strip_tags\<close> removes every run from a \<open><\<close> to the first \<open>>\<close> after it; a
  \<open><\<close> with no \<open>>\<close> after it stays.
\<close>

function strip_tags :: "string \<Rightarrow> string" where
  "strip_tags [] = []"
| "strip_tags (c # cs) =
     (if c = CHR ''<'' \<and> CHR ''>'' \<in> set cs
      then strip_tags (tl (dropWhile (\<lambda>x. x \<noteq> CHR ''>'') cs))
      else c # strip_tags cs)"
  by pat_completeness auto
termination
proof (relation "measure length")
  show "wf (measure length)" by simp
next
  fix c :: char and cs :: string
  have "length (tl (dropWhile (\<lambda>x. x \<noteq> CHR ''>'') cs)) \<le> length cs"
    using length_dropWhile_le [of "\<lambda>x. x \<noteq> CHR ''>''" cs] by simp
  then show "(tl (dropWhile (\<lambda>x. x \<noteq> CHR ''>'') cs), c # cs) \<in> measure length"
    by simp
next
  fix c :: char and cs :: string
  show "(cs, c # cs) \<in> measure length" by simp
qed

definition test_env :: "service env" where
  "test_env =
     \<lparr>make_key = (\<lambda>k. ''site1|'' @ k),
      strip_html_tags = strip_tags,
      has_request = False,
      site = ''site1'',
      ft_dropindex = mem_dropindex,
      ft_create_index = mem_create_index,
      ft_delete_document = mem_delete_document,
      hset = mem_hset\<rparr>"

definition empty_world :: "service world" where
  "empty_world =
     \<lparr>cache = Map.empty,
      search_service = \<lparr>indexes = [], hashes = [], plain_keys = []\<rparr>,
      calls = [],
      stdout = [],
      queue = []\<rparr>"

text \<open>
  A world of the small service with the index of the space \<open>docs\<close>, one page stored
  under it and one page stored under another space.
\<close>

definition docs_world :: "service world" where
  "docs_world = empty_world\<lparr>search_service :=
     \<lparr>indexes = [(''docs'', ''site1|wiki_page_search_docdocs:'')],
      hashes = [(''site1|wiki_page_search_docdocs:p1'',
                  [(''title'', ''Intro''), (''content'', ''Hello World''), (''route'', ''docs/intro'')]),
                (''site1|wiki_page_search_docblog:p9'',
                  [(''title'', ''Post''), (''content'', ''News''), (''route'', ''blog/post'')])],
      plain_keys = []\<rparr>\<rparr>"

text \<open>
  A world of the small service in which the key of the page \<open>p1\<close> of the space
  \<open>docs\<close> holds a plain string, so that storing that page is refused; and two pages,
  one in the space \<open>docs\<close> and one in the space \<open>blog\<close>.
\<close>

definition blocked_world :: "service world" where
  "blocked_world = empty_world\<lparr>search_service :=
     \<lparr>indexes = [], hashes = [],
      plain_keys = [''site1|wiki_page_search_docdocs:p1'']\<rparr>\<rparr>"

definition two_pages :: "wiki_page list" where
  "two_pages =
     [\<lparr>name = ''p1'', route = ''docs/intro'', title = ''Intro'',
       content = ''<p>Hello <b>World</b></p>''\<rparr>,
      \<lparr>name = ''p9'', route = ''blog/post'', title = ''Post'', content = ''<p>News</p>''\<rparr>]"

text \<open>
  The small service, with a drop command that is always refused with a response error
  that has nothing to do with a missing index.
\<close>

definition oom_drop_env :: "service env" where
  "oom_drop_env =
     test_env\<lparr>ft_dropindex := (\<lambda>idx delete_documents m. (Some (ResponseError ''OOM''), m))\<rparr>"

subsection \<open>Facts about the string operations\<close>

lemma py_in_iff: "py_in sub s \<longleftrightarrow> (\<exists>u v. s = u @ sub @ v)"
proof (induction s)
  case Nil
  then show ?case by auto
next
  case (Cons c cs)
  show ?case
  proof
    assume "py_in sub (c # cs)"
    then consider "prefix sub (c # cs)" | "py_in sub cs" by auto
    then show "\<exists>u v. c # cs = u @ sub @ v"
    proof cases
      case 1
      then obtain v where "c # cs = sub @ v" by (auto simp: prefix_def)
      then have "c # cs = [] @ sub @ v" by simp
      then show ?thesis by blast
    next
      case 2
      with Cons.IH obtain u v where "cs = u @ sub @ v" by blast
      then have "c # cs = (c # u) @ sub @ v" by simp
      then show ?thesis by blast
    qed
  next
    assume "\<exists>u v. c # cs = u @ sub @ v"
    then obtain u v where uv: "c # cs = u @ sub @ v" by blast
    show "py_in sub (c # cs)"
    proof (cases u)
      case Nil
      with uv have "prefix sub (c # cs)" by (simp add: prefix_def)
      then show ?thesis by simp
    next
      case (Cons a u')
      with uv have "cs = u' @ sub @ v" by simp
      with Cons.IH have "py_in sub cs" by blast
      then show ?thesis by simp
    qed
  qed
qed

subsection \<open>Facts about the space of a path\<close>

lemma get_space_route_None:
  "get_space_route spaces path = None \<longleftrightarrow> (\<forall>t \<in> set spaces. \<not> py_in t path)"
  by (induction spaces) auto

lemma get_space_route_Some:
  "get_space_route spaces path = Some s \<longleftrightarrow>
     (\<exists>before after. spaces = before @ s # after \<and> py_in s path \<and>
        (\<forall>t \<in> set before. \<not> py_in t path))"
proof (induction spaces)
  case Nil
  then show ?case by simp
next
  case (Cons a spaces)
  show ?case
  proof (cases "py_in a path")
    case True
    show ?thesis
    proof
      assume "get_space_route (a # spaces) path = Some s"
      with True have "s = a" by simp
      with True have "a # spaces = [] @ s # spaces \<and> py_in s path \<and>
          (\<forall>t \<in> set []. \<not> py_in t path)" by simp
      then show "\<exists>before after. a # spaces = before @ s # after \<and> py_in s path \<and>
          (\<forall>t \<in> set before. \<not> py_in t path)" by blast
    next
      assume "\<exists>before after. a # spaces = before @ s # after \<and> py_in s path \<and>
          (\<forall>t \<in> set before. \<not> py_in t path)"
      then obtain before after where
        h: "a # spaces = before @ s # after" "\<forall>t \<in> set before. \<not> py_in t path"
        by blast
      from h True have "before = []" by (cases before) auto
      with h have "s = a" by simp
      with True show "get_space_route (a # spaces) path = Some s" by simp
    qed
  next
    case False
    have "(\<exists>before after. a # spaces = before @ s # after \<and> py_in s path \<and>
            (\<forall>t \<in> set before. \<not> py_in t path)) \<longleftrightarrow>
          (\<exists>before after. spaces = before @ s # after \<and> py_in s path \<and>
            (\<forall>t \<in> set before. \<not> py_in t path))" (is "?L \<longleftrightarrow> ?R")
    proof
      assume ?L
      then obtain before after where
        h: "a # spaces = before @ s # after" "py_in s path"
           "\<forall>t \<in> set before. \<not> py_in t path" by blast
      from h False obtain b' where b': "before = a # b'" by (cases before) auto
      with h have "spaces = b' @ s # after \<and> py_in s path \<and> (\<forall>t \<in> set b'. \<not> py_in t path)"
        by simp
      then show ?R by blast
    next
      assume ?R
      then obtain before after where
        h: "spaces = before @ s # after" "py_in s path"
           "\<forall>t \<in> set before. \<not> py_in t path" by blast
      with False have "a # spaces = (a # before) @ s # after \<and> py_in s path \<and>
          (\<forall>t \<in> set (a # before). \<not> py_in t path)" by simp
      then show ?L by blast
    qed
    with False Cons.IH show ?thesis by simp
  qed
qed

lemma py_in_sublist: "py_in sub s \<longleftrightarrow> sublist sub s"
  by (simp add: py_in_iff sublist_def)

subsection \<open>C1: which space a path gets\<close>

text \<open>
  C1, as the specification states it: \<open>get_space_route\<close> returns the partition whose
  route is the longest prefix of the path. The code does not do that. With the spaces
  \<open>docs\<close> and \<open>docs/api\<close> in that order, the path \<open>docs/api/intro\<close> gets \<open>docs\<close>,
  while the longest matching prefix is \<open>docs/api\<close>; and the path \<open>docs/api\<close> gets the
  space \<open>api\<close>, which is no prefix of it at all.
\<close>

theorem get_space_route_longest_prefix_counterexample:
  "get_space_route [''docs'', ''docs/api''] ''docs/api/intro'' = Some ''docs'' \<and>
   spec_longest_prefix_route [''docs'', ''docs/api''] ''docs/api/intro'' = Some ''docs/api'' \<and>
   get_space_route [''api''] ''docs/api'' = Some ''api'' \<and>
   spec_longest_prefix_route [''api''] ''docs/api'' = None"
  by (simp add: spec_longest_prefix_route_def)

text \<open>
  C1, amended: \<open>get_space_route\<close> returns the first known route, in the order the
  routes are read, that occurs anywhere in the path as a contiguous run of characters
  (\<open>sublist\<close>), and \<open>None\<close> exactly when no known route occurs in the path. When
  several routes occur in the path, the earliest in that order is returned, whatever
  its length.
\<close>

theorem get_space_route_first_occurrence:
  "(get_space_route spaces path = None \<longleftrightarrow> (\<forall>t \<in> set spaces. \<not> sublist t path)) \<and>
   (get_space_route spaces path = Some s \<longleftrightarrow>
      (\<exists>before after. spaces = before @ s # after \<and> sublist s path \<and>
         (\<forall>t \<in> set before. \<not> sublist t path)))"
  using get_space_route_None [of spaces path] get_space_route_Some [of spaces path s]
  by (simp only: py_in_sublist)

theorem get_space_route_first_occurrence_witness:
  "get_space_route [''api'', ''docs'', ''docs/guide''] ''/docs/guide/intro'' = Some ''docs''"
proof -
  have a: "\<not> sublist ''api'' ''/docs/guide/intro''"
    by (simp add: py_in_sublist [symmetric])
  have b: "sublist ''docs'' ''/docs/guide/intro''"
    by (simp add: py_in_sublist [symmetric])
  have "[''api'', ''docs'', ''docs/guide''] = [''api''] @ ''docs'' # [''docs/guide''] \<and>
        sublist ''docs'' ''/docs/guide/intro'' \<and>
        (\<forall>t \<in> set [''api'']. \<not> sublist t ''/docs/guide/intro'')"
    using a b by simp
  then have "\<exists>before after. [''api'', ''docs'', ''docs/guide''] = before @ ''docs'' # after \<and>
        sublist ''docs'' ''/docs/guide/intro'' \<and>
        (\<forall>t \<in> set before. \<not> sublist t ''/docs/guide/intro'')"
    by blast
  then show ?thesis
    using get_space_route_first_occurrence
      [of "[''api'', ''docs'', ''docs/guide'']" "''/docs/guide/intro''" "''docs''"]
    by blast
qed

subsection \<open>Facts about splitting and joining\<close>

lemma endswith_suffix: "endswith s p \<longleftrightarrow> suffix p s"
  by (simp add: endswith_def suffix_to_prefix)

lemma py_split_no_sep: "sep \<notin> set s \<Longrightarrow> py_split s sep = [s]"
  by (induction s) auto

lemma py_split_append_sep:
  "sep \<notin> set t \<Longrightarrow> py_split (t @ sep # rest) sep = t # py_split rest sep"
  by (induction t) auto

lemma py_split_join:
  "ts \<noteq> [] \<Longrightarrow> \<forall>t \<in> set ts. sep \<notin> set t \<Longrightarrow> py_split (py_join [sep] ts) sep = ts"
proof (induction ts)
  case Nil
  then show ?case by simp
next
  case (Cons p ps)
  show ?case
  proof (cases ps)
    case Nil
    with Cons.prems show ?thesis by (simp add: py_split_no_sep)
  next
    case ps_def: (Cons q qs)
    with Cons.prems Cons.IH have "py_split (py_join [sep] ps) sep = ps" by simp
    with ps_def Cons.prems show ?thesis by (simp add: py_split_append_sep)
  qed
qed

subsection \<open>C2: the normalized query\<close>

text \<open>
  C2, as the specification states it: the cleaned query is split into its
  whitespace-separated terms and, when there is more than one, each term is wrapped in
  \<open>%%\<close> and the wrapped terms are joined with single spaces. The code splits at
  every single space character instead. On the cleaned query \<open>cat  dog\<close> (two
  spaces) the whitespace-separated terms are \<open>cat\<close> and \<open>dog\<close>, the specification's
  normalizer gives \<open>%%cat%% %%dog%%\<close>, and the code wraps the empty piece between
  the two spaces as well.
\<close>

theorem normalize_query_whitespace_counterexample:
  "spec_whitespace_terms ''cat  dog'' = [''cat'', ''dog''] \<and>
   spec_normalize ''cat  dog'' = ''%%cat%% %%dog%%'' \<and>
   normalize_query (\<lambda>q. q) ''cat  dog'' = ''%%cat%% %%%% %%dog%%'' \<and>
   normalize_query (\<lambda>q. q) ''cat  dog'' \<noteq> spec_normalize ''cat  dog''"
  by (simp add: normalize_query_def spec_normalize_def spec_is_whitespace_def)

text \<open>
  C2, amended: normalization is a total function of the cleaned query. A cleaned query
  with no space character gets a trailing \<open>*\<close> unless it already ends with \<open>*\<close>, in
  which case it is unchanged. A cleaned query made of two or more terms separated by
  single space characters (the terms themselves free of spaces, possibly empty) has
  each term wrapped in \<open>%%\<close> and the wrapped terms joined with single spaces.
\<close>

theorem normalize_query_space_separated:
  "(CHR '' '' \<notin> set (clean_query query) \<and> \<not> suffix ''*'' (clean_query query) \<longrightarrow>
      normalize_query clean_query query = clean_query query @ ''*'') \<and>
   (CHR '' '' \<notin> set (clean_query query) \<and> suffix ''*'' (clean_query query) \<longrightarrow>
      normalize_query clean_query query = clean_query query) \<and>
   (2 \<le> length ts \<and> (\<forall>t \<in> set ts. CHR '' '' \<notin> set t) \<and>
    clean_query query = py_join '' '' ts \<longrightarrow>
      normalize_query clean_query query = py_join '' '' (map (\<lambda>t. ''%%'' @ t @ ''%%'') ts))"
proof (intro conjI impI)
  assume "CHR '' '' \<notin> set (clean_query query) \<and> \<not> suffix ''*'' (clean_query query)"
  then show "normalize_query clean_query query = clean_query query @ ''*''"
    by (simp add: normalize_query_def py_split_no_sep endswith_suffix)
next
  assume "CHR '' '' \<notin> set (clean_query query) \<and> suffix ''*'' (clean_query query)"
  then show "normalize_query clean_query query = clean_query query"
    by (simp add: normalize_query_def py_split_no_sep endswith_suffix)
next
  assume h: "2 \<le> length ts \<and> (\<forall>t \<in> set ts. CHR '' '' \<notin> set t) \<and>
    clean_query query = py_join '' '' ts"
  then have "ts \<noteq> []" by auto
  with h have "py_split (clean_query query) (CHR '' '') = ts"
    using py_split_join [of ts "CHR '' ''"] by simp
  with h show "normalize_query clean_query query =
      py_join '' '' (map (\<lambda>t. ''%%'' @ t @ ''%%'') ts)"
    by (simp add: normalize_query_def)
qed

theorem normalize_query_space_separated_witness:
  "normalize_query (\<lambda>q. q) ''cat'' = ''cat*'' \<and>
   normalize_query (\<lambda>q. q) ''cat*'' = ''cat*'' \<and>
   normalize_query (\<lambda>q. q) ''cat dog'' = ''%%cat%% %%dog%%''"
proof -
  have one: "CHR '' '' \<notin> set ''cat'' \<and> \<not> suffix ''*'' ''cat''"
    by (simp add: suffix_to_prefix)
  have star: "CHR '' '' \<notin> set ''cat*'' \<and> suffix ''*'' ''cat*''"
    by (simp add: suffix_to_prefix)
  have two: "2 \<le> length [''cat'', ''dog''] \<and>
      (\<forall>t \<in> set [''cat'', ''dog'']. CHR '' '' \<notin> set t) \<and>
      ''cat dog'' = py_join '' '' [''cat'', ''dog'']"
    by simp
  show ?thesis
    using one star two
      normalize_query_space_separated [of "\<lambda>q. q" "''cat''" "[]"]
      normalize_query_space_separated [of "\<lambda>q. q" "''cat*''" "[]"]
      normalize_query_space_separated [of "\<lambda>q. q" "''cat dog''" "[''cat'', ''dog'']"]
    by simp
qed

subsection \<open>Facts about the pages of a space\<close>

lemma replace_from_skip:
  "old \<noteq> [] \<Longrightarrow> replace_from old new (old @ rest) = new @ replace_from old new rest"
  by (cases old) simp_all

lemma replace_from_first_char:
  assumes "old \<noteq> []" and "\<not> prefix old rest"
  shows "prefix [x] (replace_from old [] rest) \<longleftrightarrow> prefix [x] rest"
  using assms by (cases rest) simp_all

lemma remainder_starts_with:
  assumes "\<not> prefix ((space @ ''/'') @ space @ ''/'') (space @ ''/'' @ rest)"
  shows "startswith (py_replace (space @ ''/'' @ rest) (space @ ''/'') []) ''v'' \<longleftrightarrow>
         prefix ''v'' rest"
proof -
  have ne: "space @ ''/'' \<noteq> []" by simp
  from assms have np: "\<not> prefix (space @ ''/'') rest" by simp
  have "py_replace (space @ ''/'' @ rest) (space @ ''/'') [] =
        replace_from (space @ ''/'') [] ((space @ ''/'') @ rest)"
    by (simp add: py_replace_def)
  also have "\<dots> = replace_from (space @ ''/'') [] rest"
    using replace_from_skip [OF ne, of "[]" rest] by simp
  finally show ?thesis
    using replace_from_first_char [OF ne np, of "CHR ''v''"]
    by (simp add: startswith_def)
qed

lemma records_to_index_iff:
  assumes "\<not> prefix (space @ ''/'' @ space @ ''/'') (route d)"
  shows "d \<in> set (records_to_index wiki_pages space) \<longleftrightarrow>
         d \<in> set wiki_pages \<and>
         (route d = space @ ''/'' \<or>
          (\<exists>rest. route d = space @ ''/'' @ rest \<and> \<not> prefix ''v'' rest))"
proof (cases "prefix (space @ ''/'') (route d)")
  case True
  then obtain rest where r: "route d = space @ ''/'' @ rest"
    by (auto simp: prefix_def)
  with assms have "\<not> prefix ((space @ ''/'') @ space @ ''/'') (space @ ''/'' @ rest)"
    by simp
  from remainder_starts_with [OF this] r True show ?thesis
    by (auto simp: records_to_index_def startswith_def)
next
  case False
  then have "\<And>rest. route d \<noteq> space @ ''/'' @ rest" "route d \<noteq> space @ ''/''"
    by (auto simp: prefix_def)
  with False show ?thesis
    by (auto simp: records_to_index_def startswith_def)
qed

lemma records_to_index_excludes_v:
  assumes "route d = space @ ''/'' @ CHR ''v'' # rest"
    and "\<not> prefix (space @ ''/'') (CHR ''v'' # rest)"
  shows "d \<notin> set (records_to_index wiki_pages space)"
proof -
  from assms have "\<not> prefix (space @ ''/'' @ space @ ''/'') (route d)" by simp
  from records_to_index_iff [OF this, of wiki_pages] assms(1) show ?thesis by simp
qed

subsection \<open>C5: the pages selected for a space\<close>

text \<open>
  C5, as the specification states it: the pages selected for a partition are exactly
  those whose route is the partition route followed by \<open>/\<close>, or starts with it and
  has no version marker as the segment right under the partition. The code selects
  fewer pages. \<open>docs/vocabulary\<close> is under the partition \<open>docs\<close> by that rule
  (\<open>vocabulary\<close> is no version marker) and is not selected; \<open>docs/docs/v2\<close> is
  under it as well (its segment under the partition is \<open>docs\<close>) and is not selected
  either.
\<close>

theorem records_to_index_version_marker_counterexample:
  "spec_under_partition ''docs'' ''docs/vocabulary'' \<and>
   records_to_index
     [\<lparr>name = ''p1'', route = ''docs/vocabulary'', title = ''Words'', content = ''<p>Hi</p>''\<rparr>]
     ''docs'' = [] \<and>
   spec_under_partition ''docs'' ''docs/docs/v2'' \<and>
   records_to_index
     [\<lparr>name = ''p2'', route = ''docs/docs/v2'', title = ''Docs'', content = ''<p>Hi</p>''\<rparr>]
     ''docs'' = []"
  by (simp add: spec_under_partition_def spec_version_marker_def spec_first_segment_def
      records_to_index_def startswith_def py_replace_def)

text \<open>
  C5, amended: for a page whose route does not begin with the partition prefix (the
  partition route followed by \<open>/\<close>) twice in a row, the page is selected for the
  partition exactly when its route is the partition prefix, or starts with the
  partition prefix and the remainder does not begin with the character \<open>v\<close>. In
  particular \<open>docs/v2/intro\<close> is not selected for \<open>docs\<close>.
\<close>

theorem records_to_index_selection:
  assumes "\<not> prefix (space @ ''/'' @ space @ ''/'') (route d)"
  shows "d \<in> set (records_to_index wiki_pages space) \<longleftrightarrow>
         d \<in> set wiki_pages \<and>
         (route d = space @ ''/'' \<or>
          (\<exists>rest. route d = space @ ''/'' @ rest \<and> \<not> prefix ''v'' rest))"
  using assms by (rule records_to_index_iff)

theorem records_to_index_selection_witness:
  "\<lparr>name = ''p2'', route = ''docs/v2/intro'', title = ''Intro 2'', content = ''<p>Old</p>''\<rparr>
     \<notin> set (records_to_index
        [\<lparr>name = ''p1'', route = ''docs/intro'', title = ''Intro'', content = ''<p>Hi</p>''\<rparr>,
         \<lparr>name = ''p2'', route = ''docs/v2/intro'', title = ''Intro 2'', content = ''<p>Old</p>''\<rparr>]
        ''docs'') \<and>
   \<lparr>name = ''p1'', route = ''docs/intro'', title = ''Intro'', content = ''<p>Hi</p>''\<rparr>
     \<in> set (records_to_index
        [\<lparr>name = ''p1'', route = ''docs/intro'', title = ''Intro'', content = ''<p>Hi</p>''\<rparr>,
         \<lparr>name = ''p2'', route = ''docs/v2/intro'', title = ''Intro 2'', content = ''<p>Old</p>''\<rparr>]
        ''docs'')"
proof -
  let ?p1 = "\<lparr>name = ''p1'', route = ''docs/intro'', title = ''Intro'', content = ''<p>Hi</p>''\<rparr>"
  let ?p2 = "\<lparr>name = ''p2'', route = ''docs/v2/intro'', title = ''Intro 2'', content = ''<p>Old</p>''\<rparr>"
  have h1: "\<not> prefix (''docs'' @ ''/'' @ ''docs'' @ ''/'') (route ?p1)" by simp
  have h2: "\<not> prefix (''docs'' @ ''/'' @ ''docs'' @ ''/'') (route ?p2)" by simp
  have r1: "\<exists>rest. route ?p1 = ''docs'' @ ''/'' @ rest \<and> \<not> prefix ''v'' rest"
    by simp
  have r2: "\<not> (route ?p2 = ''docs'' @ ''/'' \<or>
               (\<exists>rest. route ?p2 = ''docs'' @ ''/'' @ rest \<and> \<not> prefix ''v'' rest))"
    by simp
  from r2 records_to_index_selection [OF h2, of "[?p1, ?p2]"]
  have "?p2 \<notin> set (records_to_index [?p1, ?p2] ''docs'')" by blast
  moreover from r1 records_to_index_selection [OF h1, of "[?p1, ?p2]"]
  have "?p1 \<in> set (records_to_index [?p1, ?p2] ''docs'')" by simp
  ultimately show ?thesis by blast
qed

subsection \<open>C10: routes that repeat the partition prefix\<close>

text \<open>
  C10: the exclusion looks at the remainder of the route after the partition prefix,
  and every page whose first segment under the partition starts with \<open>v\<close> is
  excluded. The code computes the remainder with \<open>replace\<close>, which removes every
  occurrence of the partition prefix and not only the leading one. The page
  \<open>vendor/vendor/x\<close> of the partition \<open>vendor\<close> has the first segment \<open>vendor\<close> under
  the partition, which starts with \<open>v\<close>; \<open>replace\<close> leaves \<open>x\<close> and the page is
  selected. (The example of the claim, \<open>docs/vocabulary\<close> under \<open>docs\<close>, is
  excluded, and so is every route with a \<open>v\<close> after a partition prefix that is not
  repeated: \<open>records_to_index_excludes_v\<close>.)
\<close>

theorem records_to_index_repeated_prefix:
  "py_replace ''vendor/vendor/x'' ''vendor/'' [] = ''x'' \<and>
   records_to_index
     [\<lparr>name = ''p1'', route = ''vendor/vendor/x'', title = ''X'', content = ''<p>Hi</p>''\<rparr>]
     ''vendor'' =
     [\<lparr>name = ''p1'', route = ''vendor/vendor/x'', title = ''X'', content = ''<p>Hi</p>''\<rparr>] \<and>
   records_to_index
     [\<lparr>name = ''p2'', route = ''docs/vocabulary'', title = ''Words'', content = ''<p>Hi</p>''\<rparr>]
     ''docs'' = []"
  by (simp add: records_to_index_def startswith_def py_replace_def)

subsection \<open>Facts about commands and \<open>drop_index\<close>\<close>

lemma service_call_result [simp]:
  "fst (service_call c f w) = fst (f (search_service w))"
  by (simp add: service_call_def split: prod.splits)

lemma service_call_world:
  "snd (service_call c f w) =
     w\<lparr>search_service := snd (f (search_service w)),
       calls := calls w @ [(c, fst (f (search_service w)))]\<rparr>"
  by (simp add: service_call_def split: prod.splits)

lemma service_call_eq:
  "service_call c f w =
     (fst (f (search_service w)),
      w\<lparr>search_service := snd (f (search_service w)),
        calls := calls w @ [(c, fst (f (search_service w)))]\<rparr>)"
  by (simp add: service_call_def split: prod.splits)

lemma drop_index_world:
  "snd (drop_index env space w) =
     w\<lparr>search_service := snd (ft_dropindex env space True (search_service w)),
       calls := calls w @
         [(DropIndex space True, fst (ft_dropindex env space True (search_service w)))]\<rparr>"
  by (simp add: drop_index_def service_call_eq split: option.splits exn.splits)

lemma drop_index_result:
  "fst (drop_index env space w) =
     (case fst (ft_dropindex env space True (search_service w)) of
        Some (OtherError m) \<Rightarrow> Some (OtherError m)
      | _ \<Rightarrow> None)"
  by (simp add: drop_index_def service_call_eq split: option.splits exn.splits)

subsection \<open>C7: dropping an index\<close>

text \<open>
  C7: \<open>drop_index\<close> sends exactly one drop command for the index of the partition,
  with \<open>delete_documents\<close> set, so the service deletes the index together with its
  documents; the state of the service afterwards is what that command leaves, and
  nothing else of the world changes. When the command succeeds, and when the service
  answers with a response error (as it does for an index that does not exist), the
  call returns normally: dropping a missing index is not an error.
\<close>

theorem drop_index_swallows_response_error:
  "snd (drop_index env space w) =
     w\<lparr>search_service := snd (ft_dropindex env space True (search_service w)),
       calls := calls w @
         [(DropIndex space True, fst (ft_dropindex env space True (search_service w)))]\<rparr> \<and>
   (fst (ft_dropindex env space True (search_service w)) = None \<longrightarrow>
      fst (drop_index env space w) = None) \<and>
   (\<forall>m. fst (ft_dropindex env space True (search_service w)) = Some (ResponseError m) \<longrightarrow>
      fst (drop_index env space w) = None)"
  by (simp add: drop_index_world drop_index_result)

theorem drop_index_swallows_response_error_witness:
  "fst (ft_dropindex test_env ''docs'' True (search_service empty_world)) =
     Some (ResponseError ''Unknown Index name'') \<and>
   fst (drop_index test_env ''docs'' empty_world) = None \<and>
   search_service (snd (drop_index test_env ''docs'' empty_world)) =
     search_service empty_world \<and>
   fst (drop_index test_env ''docs'' docs_world) = None \<and>
   search_service (snd (drop_index test_env ''docs'' docs_world)) =
     \<lparr>indexes = [],
      hashes = [(''site1|wiki_page_search_docblog:p9'',
                  [(''title'', ''Post''), (''content'', ''News''), (''route'', ''blog/post'')])],
      plain_keys = []\<rparr>"
proof -
  have missing: "fst (ft_dropindex test_env ''docs'' True (search_service empty_world)) =
      Some (ResponseError ''Unknown Index name'')"
    by (simp add: test_env_def empty_world_def mem_dropindex_def)
  have present: "fst (ft_dropindex test_env ''docs'' True (search_service docs_world)) = None"
    by (simp add: test_env_def empty_world_def docs_world_def mem_dropindex_def)
  have s0: "snd (ft_dropindex test_env ''docs'' True (search_service empty_world)) =
      search_service empty_world"
    by (simp add: test_env_def empty_world_def mem_dropindex_def)
  have s1: "snd (ft_dropindex test_env ''docs'' True (search_service docs_world)) =
      \<lparr>indexes = [],
       hashes = [(''site1|wiki_page_search_docblog:p9'',
                  [(''title'', ''Post''), (''content'', ''News''), (''route'', ''blog/post'')])],
       plain_keys = []\<rparr>"
    by (simp add: test_env_def empty_world_def docs_world_def mem_dropindex_def)
  from missing s0 drop_index_swallows_response_error [of test_env "''docs''" empty_world]
  have a: "fst (drop_index test_env ''docs'' empty_world) = None \<and>
      search_service (snd (drop_index test_env ''docs'' empty_world)) =
        search_service empty_world"
    by simp
  from present s1 drop_index_swallows_response_error [of test_env "''docs''" docs_world]
  have b: "fst (drop_index test_env ''docs'' docs_world) = None \<and>
      search_service (snd (drop_index test_env ''docs'' docs_world)) =
        \<lparr>indexes = [],
         hashes = [(''site1|wiki_page_search_docblog:p9'',
                  [(''title'', ''Post''), (''content'', ''News''), (''route'', ''blog/post'')])],
         plain_keys = []\<rparr>"
    by simp
  from missing a b show ?thesis by blast
qed

subsection \<open>Facts about storing records\<close>

lemma index_records_single:
  "index_records env space n i [d] w =
     (fst (hset env (make_key env (PREFIX @ fmt space @ '':'' @ name d))
             [(''title'', title d), (''content'', strip_html_tags env (content d)),
              (''route'', route d)] (search_service w)),
      (if \<not> has_request env \<and> n > 10
       then w\<lparr>stdout := stdout w @ [ProgressBar (''Indexing Wiki Pages - '' @ fmt space) i n]\<rparr>
       else w)
      \<lparr>search_service :=
          snd (hset env (make_key env (PREFIX @ fmt space @ '':'' @ name d))
             [(''title'', title d), (''content'', strip_html_tags env (content d)),
              (''route'', route d)] (search_service w)),
        calls := calls w @
          [(HSet (make_key env (PREFIX @ fmt space @ '':'' @ name d))
             [(''title'', title d), (''content'', strip_html_tags env (content d)),
              (''route'', route d)],
            fst (hset env (make_key env (PREFIX @ fmt space @ '':'' @ name d))
             [(''title'', title d), (''content'', strip_html_tags env (content d)),
              (''route'', route d)] (search_service w)))]\<rparr>)"
  by (simp add: service_call_eq Let_def split: option.splits)


subsection \<open>C8: what is stored for a document\<close>



subsection \<open>Facts about removing records\<close>

lemma remove_index_for_records_calls:
  assumes "\<forall>key. only_response_errors (ft_delete_document env space key)"
  shows "fst (remove_index_for_records env records space w) = None \<and>
     (\<exists>tr. calls (snd (remove_index_for_records env records space w)) = calls w @ tr \<and>
        map fst tr =
          map (\<lambda>d. DeleteDocument space (make_key env (PREFIX @ fmt space @ '':'' @ name d)))
            records)"
proof (induction records arbitrary: w)
  case Nil
  then show ?case by simp
next
  case (Cons d ds)
  let ?key = "make_key env (PREFIX @ fmt space @ '':'' @ name d)"
  let ?r = "fst (ft_delete_document env space ?key (search_service w))"
  let ?w' = "snd (service_call (DeleteDocument space ?key)
                (ft_delete_document env space ?key) w)"
  have c: "calls ?w' = calls w @ [(DeleteDocument space ?key, ?r)]"
    by (simp add: service_call_world)
  from assms have "\<And>m. ?r \<noteq> Some (OtherError m)"
    by (simp add: only_response_errors_def)
  then have step: "remove_index_for_records env (d # ds) space w =
      remove_index_for_records env ds space ?w'"
    by (cases ?r) (auto simp: service_call_eq Let_def split: exn.splits)
  from Cons.IH [of ?w'] have ok: "fst (remove_index_for_records env ds space ?w') = None"
    by (rule conjunct1)
  from Cons.IH [of ?w'] have
    "\<exists>tr. calls (snd (remove_index_for_records env ds space ?w')) = calls ?w' @ tr \<and>
        map fst tr =
          map (\<lambda>d. DeleteDocument space (make_key env (PREFIX @ fmt space @ '':'' @ name d))) ds"
    by (rule conjunct2)
  then obtain tr where
    tr: "calls (snd (remove_index_for_records env ds space ?w')) = calls ?w' @ tr \<and>
        map fst tr =
          map (\<lambda>d. DeleteDocument space (make_key env (PREFIX @ fmt space @ '':'' @ name d))) ds" ..
  have "\<exists>tr. calls (snd (remove_index_for_records env (d # ds) space w)) = calls w @ tr \<and>
        map fst tr =
          map (\<lambda>d. DeleteDocument space (make_key env (PREFIX @ fmt space @ '':'' @ name d)))
            (d # ds)"
    apply (rule exI [of _ "(DeleteDocument space ?key, ?r) # tr"])
    using tr c step by simp
  with ok step show ?case by simp
qed

lemma map_of_filter_other: "map_of (filter (\<lambda>(k, f). k \<noteq> key) xs) key = None"
  by (induction xs) auto

lemma mem_delete_document_twice:
  "snd (mem_delete_document idx key (snd (mem_delete_document idx key m))) =
     snd (mem_delete_document idx key m)"
  by (simp add: mem_delete_document_def map_of_filter_other split: option.splits)

lemma mem_delete_document_only_response_errors:
  "only_response_errors (ft_delete_document test_env (Some s) key)"
  by (simp add: only_response_errors_def test_env_def mem_delete_document_def
      split: option.splits)

lemma remove_single:
  "remove_index_for_records env [d] space w =
     (case fst (ft_delete_document env space
                  (make_key env (PREFIX @ fmt space @ '':'' @ name d)) (search_service w)) of
        Some (OtherError m) \<Rightarrow> Some (OtherError m)
      | _ \<Rightarrow> None,
      w\<lparr>search_service :=
          snd (ft_delete_document env space
                 (make_key env (PREFIX @ fmt space @ '':'' @ name d)) (search_service w)),
        calls := calls w @
          [(DeleteDocument space (make_key env (PREFIX @ fmt space @ '':'' @ name d)),
            fst (ft_delete_document env space
                   (make_key env (PREFIX @ fmt space @ '':'' @ name d)) (search_service w)))]\<rparr>)"
  by (simp add: service_call_eq Let_def split: option.splits exn.splits)

lemma remove_twice_service:
  "search_service (snd (remove_index_for_records test_env [d] space
       (snd (remove_index_for_records test_env [d] space w)))) =
   search_service (snd (remove_index_for_records test_env [d] space w))"
  by (simp add: remove_single mem_delete_document_twice test_env_def
      del: remove_index_for_records.simps)

subsection \<open>C6: removal never raises\<close>

text \<open>
  C6: for every list of documents and every partition, when the delete command of the
  service raises nothing but response errors (its answers for a document or an index
  that is not there), \<open>remove_index_for_records\<close> returns normally, and it has sent
  one delete command per document, in order, with the key of that document: an error
  for one document is dropped and the next document is still removed. Removing the
  same document a second time returns normally again, and on the small service, which
  answers an unknown document or index with a response error, the second removal
  leaves the state of the service as the first one left it.
\<close>

theorem remove_index_for_records_never_raises:
  assumes "\<forall>key. only_response_errors (ft_delete_document env space key)"
  shows "fst (remove_index_for_records env records space w) = None \<and>
     (\<exists>tr. calls (snd (remove_index_for_records env records space w)) = calls w @ tr \<and>
        map fst tr =
          map (\<lambda>d. DeleteDocument space (make_key env (PREFIX @ fmt space @ '':'' @ name d)))
            records) \<and>
     fst (remove_index_for_records test_env [d] (Some s)
            (snd (remove_index_for_records test_env [d] (Some s) w0))) = None \<and>
     search_service (snd (remove_index_for_records test_env [d] (Some s)
            (snd (remove_index_for_records test_env [d] (Some s) w0)))) =
       search_service (snd (remove_index_for_records test_env [d] (Some s) w0))"
proof -
  have second: "fst (remove_index_for_records test_env [d] (Some s)
            (snd (remove_index_for_records test_env [d] (Some s) w0))) = None"
    using remove_index_for_records_calls [of test_env "Some s" "[d]"]
      mem_delete_document_only_response_errors [of s]
    by blast
  from remove_index_for_records_calls [OF assms, of records w] second
    remove_twice_service [of d "Some s" w0]
  show ?thesis by simp
qed

theorem remove_index_for_records_never_raises_witness:
  "remove_index_for_records test_env
     [\<lparr>name = ''p1'', route = ''docs/intro''\<rparr>, \<lparr>name = ''p7'', route = ''docs/gone''\<rparr>]
     (Some ''docs'') docs_world =
   (None,
    docs_world
      \<lparr>search_service :=
         \<lparr>indexes = [(''docs'', ''site1|wiki_page_search_docdocs:'')],
          hashes = [(''site1|wiki_page_search_docblog:p9'',
                      [(''title'', ''Post''), (''content'', ''News''), (''route'', ''blog/post'')])],
          plain_keys = []\<rparr>,
       calls :=
         [(DeleteDocument (Some ''docs'') ''site1|wiki_page_search_docdocs:p1'', None),
          (DeleteDocument (Some ''docs'') ''site1|wiki_page_search_docdocs:p7'',
             Some (ResponseError ''Document not found''))]\<rparr>)"
proof -
  let ?res = "remove_index_for_records test_env
     [\<lparr>name = ''p1'', route = ''docs/intro''\<rparr>, \<lparr>name = ''p7'', route = ''docs/gone''\<rparr>]
     (Some ''docs'') docs_world"
  have h: "\<forall>key. only_response_errors (ft_delete_document test_env (Some ''docs'') key)"
    by (simp add: mem_delete_document_only_response_errors)
  from remove_index_for_records_never_raises [OF h]
  have ok: "fst ?res = None" by (rule conjunct1)
  have w: "snd ?res =
    docs_world
      \<lparr>search_service :=
         \<lparr>indexes = [(''docs'', ''site1|wiki_page_search_docdocs:'')],
          hashes = [(''site1|wiki_page_search_docblog:p9'',
                      [(''title'', ''Post''), (''content'', ''News''), (''route'', ''blog/post'')])],
          plain_keys = []\<rparr>,
       calls :=
         [(DeleteDocument (Some ''docs'') ''site1|wiki_page_search_docdocs:p1'', None),
          (DeleteDocument (Some ''docs'') ''site1|wiki_page_search_docdocs:p7'',
             Some (ResponseError ''Document not found''))]\<rparr>"
    by (simp add: service_call_eq Let_def test_env_def mem_delete_document_def
        docs_world_def empty_world_def PREFIX_def)
  from ok w show ?thesis by (simp add: prod_eq_iff)
qed

subsection \<open>C9: a path that belongs to no space\<close>

text \<open>
  C9, as the specification states it: when no known partition route matches, the
  resolution gives an explicit "no partition" outcome and \<open>update_index\<close> and
  \<open>remove_index\<close> do not go on to index or delete under a defaulted partition
  value. The code goes on. With the only space \<open>docs\<close>, the page \<open>blog/post\<close> has no
  space; \<open>update_index\<close> returns normally and has stored the page under the key
  built from the text \<open>None\<close>, and \<open>remove_index\<close> sends the delete command for
  that key.
\<close>

theorem update_index_unresolved_space_counterexample:
  "get_space_route [''docs''] ''blog/post'' = None \<and>
   update_index test_env [''docs'']
     \<lparr>name = ''p9'', route = ''blog/post'', title = ''Post'', content = ''<p>News</p>''\<rparr>
     empty_world =
   (None,
    empty_world
      \<lparr>search_service :=
         \<lparr>indexes = [],
          hashes = [(''site1|wiki_page_search_docNone:p9'',
                      [(''title'', ''Post''), (''content'', ''News''), (''route'', ''blog/post'')])],
          plain_keys = []\<rparr>,
       calls := [(HSet ''site1|wiki_page_search_docNone:p9''
                    [(''title'', ''Post''), (''content'', ''News''), (''route'', ''blog/post'')],
                  None)]\<rparr>) \<and>
   map fst (calls (snd (remove_index test_env [''docs'']
     \<lparr>name = ''p9'', route = ''blog/post'', title = ''Post'', content = ''<p>News</p>''\<rparr>
     empty_world))) =
   [DeleteDocument None ''site1|wiki_page_search_docNone:p9'']"
  by (simp add: update_index_def remove_index_def create_index_for_records_def
      index_records_single remove_single test_env_def mem_hset_def empty_world_def PREFIX_def
      del: index_records.simps remove_index_for_records.simps)

text \<open>
  C9, amended: when no known partition route occurs in the route of the document,
  \<open>get_space_route\<close> returns \<open>None\<close>, and neither entry point checks it:
  \<open>update_index\<close> sends one \<open>hset\<close> for the document under the key built from the
  fixed prefix, the text \<open>None\<close>, a colon and the document id, and \<open>remove_index\<close>
  sends one delete command for that same key to the index whose name is \<open>None\<close>.
\<close>

theorem unresolved_space_is_used_as_None:
  assumes "\<forall>t \<in> set spaces. \<not> sublist t (route doc)"
  shows "get_space_route spaces (route doc) = None \<and>
     calls (snd (update_index env spaces doc w)) =
       calls w @
         [(HSet (make_key env (PREFIX @ ''None:'' @ name doc))
             [(''title'', title doc), (''content'', strip_html_tags env (content doc)),
              (''route'', route doc)],
           fst (hset env (make_key env (PREFIX @ ''None:'' @ name doc))
             [(''title'', title doc), (''content'', strip_html_tags env (content doc)),
              (''route'', route doc)] (search_service w)))] \<and>
     calls (snd (remove_index env spaces doc w)) =
       calls w @
         [(DeleteDocument None (make_key env (PREFIX @ ''None:'' @ name doc)),
           fst (ft_delete_document env None (make_key env (PREFIX @ ''None:'' @ name doc))
                  (search_service w)))]"
proof -
  from assms have none: "get_space_route spaces (route doc) = None"
    by (simp add: get_space_route_None py_in_sublist)
  then show ?thesis
    by (simp add: update_index_def remove_index_def create_index_for_records_def
        index_records_single remove_single
        del: index_records.simps remove_index_for_records.simps)
qed

theorem unresolved_space_is_used_as_None_witness:
  "get_space_route [''docs'', ''wiki''] ''blog/post'' = None \<and>
   map fst (calls (snd (update_index test_env [''docs'', ''wiki'']
     \<lparr>name = ''p9'', route = ''blog/post'', title = ''Post'', content = ''<p>News</p>''\<rparr>
     empty_world))) =
   [HSet ''site1|wiki_page_search_docNone:p9''
      [(''title'', ''Post''), (''content'', ''News''), (''route'', ''blog/post'')]]"
proof -
  let ?doc = "\<lparr>name = ''p9'', route = ''blog/post'', title = ''Post'',
                content = ''<p>News</p>''\<rparr>"
  have h: "\<forall>t \<in> set [''docs'', ''wiki'']. \<not> sublist t (route ?doc)"
    by (simp add: py_in_sublist [symmetric])
  note T = unresolved_space_is_used_as_None [OF h, of test_env empty_world]
  have a: "get_space_route [''docs'', ''wiki''] ''blog/post'' = None"
    using T [THEN conjunct1] by simp
  have b: "map fst (calls (snd (update_index test_env [''docs'', ''wiki''] ?doc empty_world))) =
      [HSet ''site1|wiki_page_search_docNone:p9''
        [(''title'', ''Post''), (''content'', ''News''), (''route'', ''blog/post'')]]"
    using T [THEN conjunct2, THEN conjunct1]
    by (simp add: test_env_def empty_world_def PREFIX_def)
  from a b show ?thesis by simp
qed

subsection \<open>C4: admission of a background rebuild\<close>

text \<open>
  C4: when the cached flag is true, \<open>rebuild_index_in_background\<close> changes nothing:
  no job is enqueued, and a second call right after it changes nothing either. When
  the flag is false or was never set, exactly one job, \<open>rebuild_index\<close> on the queue
  \<open>long\<close>, is added to the queue and one line is printed; the cache, the service and
  the commands sent stay as they were.
\<close>

theorem rebuild_index_in_background_admission:
  "(cache w in_progress_key = Some True \<longrightarrow>
      rebuild_index_in_background env w = w \<and>
      rebuild_index_in_background env (rebuild_index_in_background env w) = w) \<and>
   (cache w in_progress_key \<noteq> Some True \<longrightarrow>
      queue (rebuild_index_in_background env w) = queue w @ [Job ''rebuild_index'' ''long''] \<and>
      stdout (rebuild_index_in_background env w) =
        stdout w @ [Printed (''Queued rebuilding of search index for '' @ site env)] \<and>
      cache (rebuild_index_in_background env w) = cache w \<and>
      search_service (rebuild_index_in_background env w) = search_service w \<and>
      calls (rebuild_index_in_background env w) = calls w)"
  by (simp add: rebuild_index_in_background_def get_value_def)

theorem rebuild_index_in_background_admission_witness:
  "rebuild_index_in_background test_env (set_value in_progress_key True empty_world) =
     set_value in_progress_key True empty_world \<and>
   queue (rebuild_index_in_background test_env
            (rebuild_index_in_background test_env
               (set_value in_progress_key True empty_world))) = [] \<and>
   queue (rebuild_index_in_background test_env empty_world) = [Job ''rebuild_index'' ''long''] \<and>
   queue (rebuild_index_in_background test_env (set_value in_progress_key False empty_world)) =
     [Job ''rebuild_index'' ''long'']"
proof -
  let ?busy = "set_value in_progress_key True empty_world"
  let ?idle = "set_value in_progress_key False empty_world"
  have t: "cache ?busy in_progress_key = Some True" by (simp add: set_value_def)
  have f: "cache ?idle in_progress_key \<noteq> Some True" by (simp add: set_value_def)
  have n: "cache empty_world in_progress_key \<noteq> Some True" by (simp add: empty_world_def)
  have q: "queue ?busy = []" "queue ?idle = []" "queue empty_world = []"
    by (simp_all add: set_value_def empty_world_def)
  from t rebuild_index_in_background_admission [of ?busy test_env]
  have a: "rebuild_index_in_background test_env ?busy = ?busy \<and>
      rebuild_index_in_background test_env (rebuild_index_in_background test_env ?busy) = ?busy"
    by blast
  from f rebuild_index_in_background_admission [of ?idle test_env]
  have b: "queue (rebuild_index_in_background test_env ?idle) =
      queue ?idle @ [Job ''rebuild_index'' ''long'']"
    by blast
  from n rebuild_index_in_background_admission [of empty_world test_env]
  have c: "queue (rebuild_index_in_background test_env empty_world) =
      queue empty_world @ [Job ''rebuild_index'' ''long'']"
    by blast
  from a b c q show ?thesis by simp
qed

subsection \<open>Facts about the history of commands\<close>

lemma response_errors_simps [simp]:
  "response_errors [] = []"
  "response_errors (tr @ tr') = response_errors tr @ response_errors tr'"
  "response_errors ((DropIndex s dd, r) # tr) = response_errors tr"
  "response_errors ((CreateIndex s sch p, None) # tr) = response_errors tr"
  "response_errors ((CreateIndex s sch p, Some (ResponseError m)) # tr) = m # response_errors tr"
  "response_errors ((CreateIndex s sch p, Some (OtherError m)) # tr) = response_errors tr"
  "response_errors ((HSet k f, None) # tr) = response_errors tr"
  "response_errors ((HSet k f, Some (ResponseError m)) # tr) = m # response_errors tr"
  "response_errors ((HSet k f, Some (OtherError m)) # tr) = response_errors tr"
  "response_errors ((SetValue k v, None) # tr) = response_errors tr"
  by (simp_all add: response_errors_def)

lemma printed_simps [simp]:
  "printed [] = []"
  "printed (os @ os') = printed os @ printed os'"
  "printed (Printed m # os) = m # printed os"
  "printed (ProgressBar t i n # os) = printed os"
  by (simp_all add: printed_def)

lemma replay_append [simp]: "replay env (tr @ tr') b = replay env tr' (replay env tr b)"
  by (induction tr arbitrary: b) auto

lemma answers_append [simp]:
  "answers env (tr @ tr') b \<longleftrightarrow> answers env tr b \<and> answers env tr' (replay env tr b)"
  by (induction tr arbitrary: b) auto

lemma run_hset_command [simp]:
  "run_command env (hset_command env space d) b =
     hset env (make_key env (PREFIX @ fmt space @ '':'' @ name d))
       [(''title'', title d), (''content'', strip_html_tags env (content d)),
        (''route'', route d)] b"
  by (simp add: hset_command_def)

lemma response_errors_hset_command [simp]:
  "response_errors [(hset_command env space d, r)] =
     (case r of Some (ResponseError m) \<Rightarrow> [m] | _ \<Rightarrow> [])"
  by (simp add: hset_command_def split: option.splits exn.splits)

subsection \<open>Facts about rebuilding\<close>

lemma index_records_step:
  "index_records env space n i (d # ds) w =
     (let w2 = snd (service_call (hset_command env space d)
                  (hset env (make_key env (PREFIX @ fmt space @ '':'' @ name d))
                     [(''title'', title d), (''content'', strip_html_tags env (content d)),
                      (''route'', route d)])
                  (if \<not> has_request env \<and> n > 10
                   then w\<lparr>stdout := stdout w @
                          [ProgressBar (''Indexing Wiki Pages - '' @ fmt space) i n]\<rparr>
                   else w))
      in case fst (run_command env (hset_command env space d) (search_service w)) of
           None \<Rightarrow> index_records env space n (Suc i) ds w2
         | Some e \<Rightarrow> (Some e, w2))"
  by (simp add: service_call_eq Let_def hset_command_def split: option.splits)

lemma index_records_history:
  "\<exists>tr. calls (snd (index_records env space n i ds w)) = calls w @ tr \<and>
     sent_until_error (map (hset_command env space) ds) tr \<and>
     answers env tr (search_service w) \<and>
     search_service (snd (index_records env space n i ds w)) =
       replay env tr (search_service w) \<and>
     response_errors tr =
       (case fst (index_records env space n i ds w) of
          Some (ResponseError m) \<Rightarrow> [m] | _ \<Rightarrow> []) \<and>
     printed (stdout (snd (index_records env space n i ds w))) = printed (stdout w) \<and>
     cache (snd (index_records env space n i ds w)) = cache w \<and>
     queue (snd (index_records env space n i ds w)) = queue w \<and>
     ((\<forall>k f. only_response_errors (hset env k f)) \<longrightarrow>
        (\<forall>m. fst (index_records env space n i ds w) \<noteq> Some (OtherError m)))"
proof (induction ds arbitrary: i w)
  case Nil
  show ?case by (rule exI [of _ "[]"]) simp
next
  case (Cons d ds)
  let ?c = "hset_command env space d"
  let ?w1 = "(if \<not> has_request env \<and> n > 10
       then w\<lparr>stdout := stdout w @ [ProgressBar (''Indexing Wiki Pages - '' @ fmt space) i n]\<rparr>
       else w)"
  let ?r = "fst (run_command env ?c (search_service w))"
  let ?w2 = "snd (service_call ?c
                (hset env (make_key env (PREFIX @ fmt space @ '':'' @ name d))
                   [(''title'', title d), (''content'', strip_html_tags env (content d)),
                    (''route'', route d)]) ?w1)"
  have w2: "calls ?w2 = calls w @ [(?c, ?r)]"
    "search_service ?w2 = snd (run_command env ?c (search_service w))"
    "printed (stdout ?w2) = printed (stdout w)" "cache ?w2 = cache w" "queue ?w2 = queue w"
    by (simp_all add: service_call_world)
  show ?case
  proof (cases ?r)
    case None
    then have step: "index_records env space n i (d # ds) w =
        index_records env space n (Suc i) ds ?w2"
      by (simp add: index_records_step Let_def del: index_records.simps run_hset_command)
    from Cons.IH [of "Suc i" ?w2] obtain tr where
      tr: "calls (snd (index_records env space n (Suc i) ds ?w2)) = calls ?w2 @ tr \<and>
        sent_until_error (map (hset_command env space) ds) tr \<and>
        answers env tr (search_service ?w2) \<and>
        search_service (snd (index_records env space n (Suc i) ds ?w2)) =
          replay env tr (search_service ?w2) \<and>
        response_errors tr =
          (case fst (index_records env space n (Suc i) ds ?w2) of
             Some (ResponseError m) \<Rightarrow> [m] | _ \<Rightarrow> []) \<and>
        printed (stdout (snd (index_records env space n (Suc i) ds ?w2))) =
          printed (stdout ?w2) \<and>
        cache (snd (index_records env space n (Suc i) ds ?w2)) = cache ?w2 \<and>
        queue (snd (index_records env space n (Suc i) ds ?w2)) = queue ?w2 \<and>
        ((\<forall>k f. only_response_errors (hset env k f)) \<longrightarrow>
           (\<forall>m. fst (index_records env space n (Suc i) ds ?w2) \<noteq> Some (OtherError m)))" ..
    have re: "response_errors ((?c, None) # tr) = response_errors tr"
      by (simp add: hset_command_def)
    show ?thesis
      apply (rule exI [of _ "(?c, None) # tr"])
      using tr w2 None re
      by (simp add: step del: index_records.simps run_hset_command response_errors_simps)
  next
    case (Some e)
    then have step: "index_records env space n i (d # ds) w = (Some e, ?w2)"
      by (simp add: index_records_step Let_def del: index_records.simps run_hset_command)
    have only: "(\<forall>k f. only_response_errors (hset env k f)) \<longrightarrow> (\<forall>m. e \<noteq> OtherError m)"
      using Some by (auto simp: only_response_errors_def)
    have re: "response_errors [(?c, Some e)] =
        (case e of ResponseError m \<Rightarrow> [m] | OtherError m \<Rightarrow> [])"
      by (simp split: exn.splits)
    show ?thesis
      apply (rule exI [of _ "[(?c, Some e)]"])
      using w2 Some only re
      by (cases e)
         (simp_all add: step del: index_records.simps run_hset_command response_errors_simps
            response_errors_hset_command)
  qed
qed


lemma drop_index_ok:
  assumes "rebuild_only_response_errors env"
  shows "fst (drop_index env space w) = None"
proof -
  from assms have "\<And>m. fst (ft_dropindex env space True (search_service w)) \<noteq> Some (OtherError m)"
    by (simp add: rebuild_only_response_errors_def only_response_errors_def)
  then show ?thesis
    by (simp add: drop_index_result split: option.splits exn.splits)
qed

lemma rebuild_space_history:
  assumes hyp: "rebuild_only_response_errors env"
  shows "\<exists>tr. calls (snd (rebuild_space env wiki_pages space w)) = calls w @ tr \<and>
     partition_history env wiki_pages space tr \<and>
     answers env tr (search_service w) \<and>
     search_service (snd (rebuild_space env wiki_pages space w)) =
       replay env tr (search_service w) \<and>
     response_errors tr =
       (case fst (rebuild_space env wiki_pages space w) of
          Some (ResponseError m) \<Rightarrow> [m] | _ \<Rightarrow> []) \<and>
     printed (stdout (snd (rebuild_space env wiki_pages space w))) = printed (stdout w) \<and>
     cache (snd (rebuild_space env wiki_pages space w)) = cache w \<and>
     queue (snd (rebuild_space env wiki_pages space w)) = queue w \<and>
     (\<forall>m. fst (rebuild_space env wiki_pages space w) \<noteq> Some (OtherError m))"
proof -
  let ?d = "DropIndex space True"
  let ?r1 = "fst (run_command env ?d (search_service w))"
  let ?b1 = "snd (run_command env ?d (search_service w))"
  let ?w1 = "snd (drop_index env space w)"
  let ?p = "make_key env (PREFIX @ space) @ '':''"
  let ?c = "CreateIndex space schema ?p"
  let ?r2 = "fst (run_command env ?c ?b1)"
  let ?b2 = "snd (run_command env ?c ?b1)"
  let ?w2 = "snd (service_call ?c (ft_create_index env space schema ?p) ?w1)"
  have w1: "calls ?w1 = calls w @ [(?d, ?r1)]" "search_service ?w1 = ?b1"
    "stdout ?w1 = stdout w" "cache ?w1 = cache w" "queue ?w1 = queue w"
    by (simp_all add: drop_index_world)
  have w2: "calls ?w2 = calls w @ [(?d, ?r1), (?c, ?r2)]" "search_service ?w2 = ?b2"
    "stdout ?w2 = stdout w" "cache ?w2 = cache w" "queue ?w2 = queue w"
    using w1 by (simp_all add: service_call_world)
  from hyp have r2: "\<And>m. ?r2 \<noteq> Some (OtherError m)"
    by (simp add: rebuild_only_response_errors_def only_response_errors_def)
  from hyp have hs: "\<forall>k f. only_response_errors (hset env k f)"
    by (simp add: rebuild_only_response_errors_def)
  show ?thesis
  proof (cases ?r2)
    case None
    let ?recs = "records_to_index wiki_pages space"
    from None w1 have step: "rebuild_space env wiki_pages space w =
        index_records env (Some space) (length ?recs) 0 ?recs ?w2"
      by (simp add: rebuild_space_def case_prod_beta Let_def drop_index_ok [OF hyp]
          create_index_for_records_def)
    from index_records_history [of env "Some space" "length ?recs" 0 ?recs ?w2] obtain tr where
      tr: "calls (snd (index_records env (Some space) (length ?recs) 0 ?recs ?w2)) =
          calls ?w2 @ tr \<and>
        sent_until_error (map (hset_command env (Some space)) ?recs) tr \<and>
        answers env tr (search_service ?w2) \<and>
        search_service (snd (index_records env (Some space) (length ?recs) 0 ?recs ?w2)) =
          replay env tr (search_service ?w2) \<and>
        response_errors tr =
          (case fst (index_records env (Some space) (length ?recs) 0 ?recs ?w2) of
             Some (ResponseError m) \<Rightarrow> [m] | _ \<Rightarrow> []) \<and>
        printed (stdout (snd (index_records env (Some space) (length ?recs) 0 ?recs ?w2))) =
          printed (stdout ?w2) \<and>
        cache (snd (index_records env (Some space) (length ?recs) 0 ?recs ?w2)) = cache ?w2 \<and>
        queue (snd (index_records env (Some space) (length ?recs) 0 ?recs ?w2)) = queue ?w2 \<and>
        ((\<forall>k f. only_response_errors (hset env k f)) \<longrightarrow>
           (\<forall>m. fst (index_records env (Some space) (length ?recs) 0 ?recs ?w2) \<noteq>
                  Some (OtherError m)))" ..
    show ?thesis
      apply (rule exI [of _ "(?d, ?r1) # (?c, None) # tr"])
      using tr w2 None hs by (simp add: step)
  next
    case (Some e)
    with r2 obtain m where e: "e = ResponseError m" by (cases e) auto
    from Some w1 have step: "rebuild_space env wiki_pages space w = (Some e, ?w2)"
      by (simp add: rebuild_space_def case_prod_beta Let_def drop_index_ok [OF hyp])
    show ?thesis
      apply (rule exI [of _ "[(?d, ?r1), (?c, Some e)]"])
      using w2 Some e by (simp add: step)
  qed
qed

lemma rebuild_spaces_history:
  assumes hyp: "rebuild_only_response_errors env"
  shows "fst (rebuild_spaces env wiki_pages spaces w) = None \<and>
    (\<exists>segs. calls (snd (rebuild_spaces env wiki_pages spaces w)) = calls w @ concat segs \<and>
       list_all2 (partition_history env wiki_pages) spaces segs \<and>
       answers env (concat segs) (search_service w) \<and>
       search_service (snd (rebuild_spaces env wiki_pages spaces w)) =
         replay env (concat segs) (search_service w) \<and>
       printed (stdout (snd (rebuild_spaces env wiki_pages spaces w))) =
         printed (stdout w) @ response_errors (concat segs) \<and>
       cache (snd (rebuild_spaces env wiki_pages spaces w)) = cache w \<and>
       queue (snd (rebuild_spaces env wiki_pages spaces w)) = queue w)"
proof (induction spaces arbitrary: w)
  case Nil
  have "\<exists>segs. calls (snd (rebuild_spaces env wiki_pages [] w)) = calls w @ concat segs \<and>
       list_all2 (partition_history env wiki_pages) [] segs \<and>
       answers env (concat segs) (search_service w) \<and>
       search_service (snd (rebuild_spaces env wiki_pages [] w)) =
         replay env (concat segs) (search_service w) \<and>
       printed (stdout (snd (rebuild_spaces env wiki_pages [] w))) =
         printed (stdout w) @ response_errors (concat segs) \<and>
       cache (snd (rebuild_spaces env wiki_pages [] w)) = cache w \<and>
       queue (snd (rebuild_spaces env wiki_pages [] w)) = queue w"
    by (rule exI [of _ "[]"]) simp
  then show ?case by simp
next
  case (Cons space spaces)
  let ?R = "rebuild_space env wiki_pages space w"
  let ?w' = "snd ?R"
  let ?next = "(case fst ?R of
                  Some (ResponseError m) \<Rightarrow> ?w'\<lparr>stdout := stdout ?w' @ [Printed m]\<rparr>
                | _ \<Rightarrow> ?w')"
  from rebuild_space_history [OF hyp, of wiki_pages space w] obtain tr1 where
    tr1: "calls ?w' = calls w @ tr1 \<and>
     partition_history env wiki_pages space tr1 \<and>
     answers env tr1 (search_service w) \<and>
     search_service ?w' = replay env tr1 (search_service w) \<and>
     response_errors tr1 =
       (case fst ?R of Some (ResponseError m) \<Rightarrow> [m] | _ \<Rightarrow> []) \<and>
     printed (stdout ?w') = printed (stdout w) \<and>
     cache ?w' = cache w \<and>
     queue ?w' = queue w \<and>
     (\<forall>m. fst ?R \<noteq> Some (OtherError m))" ..
  have step: "rebuild_spaces env wiki_pages (space # spaces) w =
      rebuild_spaces env wiki_pages spaces ?next"
    using tr1 by (cases ?R) (auto split: option.splits exn.splits)
  have nxt: "calls ?next = calls w @ tr1"
    "search_service ?next = replay env tr1 (search_service w)"
    "printed (stdout ?next) = printed (stdout w) @ response_errors tr1"
    "cache ?next = cache w" "queue ?next = queue w"
    using tr1 by (auto split: option.splits exn.splits)
  from Cons.IH [of ?next] have ok: "fst (rebuild_spaces env wiki_pages spaces ?next) = None"
    by (rule conjunct1)
  from Cons.IH [of ?next] have
    "\<exists>segs. calls (snd (rebuild_spaces env wiki_pages spaces ?next)) =
         calls ?next @ concat segs \<and>
       list_all2 (partition_history env wiki_pages) spaces segs \<and>
       answers env (concat segs) (search_service ?next) \<and>
       search_service (snd (rebuild_spaces env wiki_pages spaces ?next)) =
         replay env (concat segs) (search_service ?next) \<and>
       printed (stdout (snd (rebuild_spaces env wiki_pages spaces ?next))) =
         printed (stdout ?next) @ response_errors (concat segs) \<and>
       cache (snd (rebuild_spaces env wiki_pages spaces ?next)) = cache ?next \<and>
       queue (snd (rebuild_spaces env wiki_pages spaces ?next)) = queue ?next"
    by (rule conjunct2)
  then obtain segs where
    segs: "calls (snd (rebuild_spaces env wiki_pages spaces ?next)) =
         calls ?next @ concat segs \<and>
       list_all2 (partition_history env wiki_pages) spaces segs \<and>
       answers env (concat segs) (search_service ?next) \<and>
       search_service (snd (rebuild_spaces env wiki_pages spaces ?next)) =
         replay env (concat segs) (search_service ?next) \<and>
       printed (stdout (snd (rebuild_spaces env wiki_pages spaces ?next))) =
         printed (stdout ?next) @ response_errors (concat segs) \<and>
       cache (snd (rebuild_spaces env wiki_pages spaces ?next)) = cache ?next \<and>
       queue (snd (rebuild_spaces env wiki_pages spaces ?next)) = queue ?next" ..
  have "\<exists>segs. calls (snd (rebuild_spaces env wiki_pages (space # spaces) w)) =
         calls w @ concat segs \<and>
       list_all2 (partition_history env wiki_pages) (space # spaces) segs \<and>
       answers env (concat segs) (search_service w) \<and>
       search_service (snd (rebuild_spaces env wiki_pages (space # spaces) w)) =
         replay env (concat segs) (search_service w) \<and>
       printed (stdout (snd (rebuild_spaces env wiki_pages (space # spaces) w))) =
         printed (stdout w) @ response_errors (concat segs) \<and>
       cache (snd (rebuild_spaces env wiki_pages (space # spaces) w)) = cache w \<and>
       queue (snd (rebuild_spaces env wiki_pages (space # spaces) w)) = queue w"
    apply (rule exI [of _ "tr1 # segs"])
    using tr1 segs nxt by (simp add: step del: rebuild_spaces.simps)
  with ok show ?case by (simp add: step del: rebuild_spaces.simps)
qed

lemma test_env_only_response_errors: "rebuild_only_response_errors test_env"
  by (simp add: rebuild_only_response_errors_def only_response_errors_def test_env_def
      mem_dropindex_def mem_create_index_def mem_hset_def split: option.splits)

lemma rebuild_example:
  "rebuild_index test_env [''docs'', ''blog''] two_pages blocked_world =
   (None,
    \<lparr>cache = [in_progress_key \<mapsto> False],
     search_service =
       \<lparr>indexes = [(''docs'', ''site1|wiki_page_search_docdocs:''),
                   (''blog'', ''site1|wiki_page_search_docblog:'')],
        hashes = [(''site1|wiki_page_search_docblog:p9'',
                    [(''title'', ''Post''), (''content'', ''News''), (''route'', ''blog/post'')])],
        plain_keys = [''site1|wiki_page_search_docdocs:p1'']\<rparr>,
     calls =
       [(SetValue in_progress_key True, None),
        (DropIndex ''docs'' True, Some (ResponseError ''Unknown Index name'')),
        (CreateIndex ''docs'' schema ''site1|wiki_page_search_docdocs:'', None),
        (HSet ''site1|wiki_page_search_docdocs:p1''
           [(''title'', ''Intro''), (''content'', ''Hello World''), (''route'', ''docs/intro'')],
         Some (ResponseError ''WRONGTYPE'')),
        (DropIndex ''blog'' True, Some (ResponseError ''Unknown Index name'')),
        (CreateIndex ''blog'' schema ''site1|wiki_page_search_docblog:'', None),
        (HSet ''site1|wiki_page_search_docblog:p9''
           [(''title'', ''Post''), (''content'', ''News''), (''route'', ''blog/post'')],
         None),
        (SetValue in_progress_key False, None)],
     stdout = [Printed ''WRONGTYPE''],
     queue = []\<rparr>)"
  by (simp add: rebuild_index_def rebuild_space_def drop_index_def service_call_eq
      create_index_for_records_def records_to_index_def startswith_def py_replace_def
      set_value_def test_env_def mem_dropindex_def mem_create_index_def mem_hset_def
      blocked_world_def empty_world_def two_pages_def PREFIX_def Let_def)

subsection \<open>C3: a failing partition does not stop the rebuild\<close>

text \<open>
  C3, as the specification states it: a backend error raised while one partition is
  rebuilt is caught and reported, after which processing continues with the next
  partition. That is not so for the first command of a partition. \<open>drop_index\<close>
  catches the response error of the drop command itself and reports nothing, and the
  rebuild of the same partition goes on. On a service whose drop command is refused
  with the response error \<open>OOM\<close>, the rebuild of the partition \<open>docs\<close> returns
  normally, the error is in the history, nothing is printed, and the index of
  \<open>docs\<close> has been created and its page stored all the same.
\<close>

theorem rebuild_index_drop_error_counterexample:
  "rebuild_index oom_drop_env [''docs''] two_pages empty_world =
   (None,
    \<lparr>cache = [in_progress_key \<mapsto> False],
     search_service =
       \<lparr>indexes = [(''docs'', ''site1|wiki_page_search_docdocs:'')],
        hashes = [(''site1|wiki_page_search_docdocs:p1'',
                    [(''title'', ''Intro''), (''content'', ''Hello World''),
                     (''route'', ''docs/intro'')])],
        plain_keys = []\<rparr>,
     calls =
       [(SetValue in_progress_key True, None),
        (DropIndex ''docs'' True, Some (ResponseError ''OOM'')),
        (CreateIndex ''docs'' schema ''site1|wiki_page_search_docdocs:'', None),
        (HSet ''site1|wiki_page_search_docdocs:p1''
           [(''title'', ''Intro''), (''content'', ''Hello World''), (''route'', ''docs/intro'')],
         None),
        (SetValue in_progress_key False, None)],
     stdout = [],
     queue = []\<rparr>)"
  by (simp add: rebuild_index_def rebuild_space_def drop_index_def service_call_eq
      create_index_for_records_def records_to_index_def startswith_def py_replace_def
      set_value_def oom_drop_env_def test_env_def mem_create_index_def mem_hset_def
      empty_world_def two_pages_def PREFIX_def Let_def)

text \<open>
  C3, amended: when the commands of the service raise nothing but response errors,
  \<open>rebuild_index\<close> returns normally for every list of partitions and pages. The
  first command it sends sets the flag to true and the last one sets it to false; the
  final cache is the old one with the flag false. Between the two, the history is one
  run of commands per partition, in the order of the partitions, whatever happened to
  the partitions before: the index is dropped with its documents; whatever the drop
  command answered (its response error is dropped without a report), the index is
  created over the key prefix of the partition; if the creation succeeded, the pages
  selected for the partition are stored in order until one is refused. Every recorded
  outcome is the answer the service gave at that moment, and the final state of the
  service is the one these commands leave. The lines printed during the rebuild are
  exactly the messages of the response errors raised by the create and store
  commands, in order: each of them is caught and reported, and the next partition is
  processed after it.
\<close>

theorem rebuild_index_isolates_failures:
  assumes "rebuild_only_response_errors env"
  shows "fst (rebuild_index env spaces wiki_pages w) = None \<and>
    cache (snd (rebuild_index env spaces wiki_pages w)) =
      (cache w)(in_progress_key \<mapsto> False) \<and>
    queue (snd (rebuild_index env spaces wiki_pages w)) = queue w \<and>
    (\<exists>segs. calls (snd (rebuild_index env spaces wiki_pages w)) =
         calls w @ [(SetValue in_progress_key True, None)] @ concat segs @
           [(SetValue in_progress_key False, None)] \<and>
       list_all2 (partition_history env wiki_pages) spaces segs \<and>
       answers env (concat segs) (search_service w) \<and>
       search_service (snd (rebuild_index env spaces wiki_pages w)) =
         replay env (concat segs) (search_service w) \<and>
       printed (stdout (snd (rebuild_index env spaces wiki_pages w))) =
         printed (stdout w) @ response_errors (concat segs))"
proof -
  let ?w1 = "set_value in_progress_key True w"
  let ?R = "rebuild_spaces env wiki_pages spaces ?w1"
  have w1: "calls ?w1 = calls w @ [(SetValue in_progress_key True, None)]"
    "stdout ?w1 = stdout w" "search_service ?w1 = search_service w" "queue ?w1 = queue w"
    "cache ?w1 = (cache w)(in_progress_key \<mapsto> True)"
    by (simp_all add: set_value_def)
  from rebuild_spaces_history [OF assms, of wiki_pages spaces ?w1]
  have ok: "fst ?R = None" by (rule conjunct1)
  from rebuild_spaces_history [OF assms, of wiki_pages spaces ?w1] have
    "\<exists>segs. calls (snd ?R) = calls ?w1 @ concat segs \<and>
       list_all2 (partition_history env wiki_pages) spaces segs \<and>
       answers env (concat segs) (search_service ?w1) \<and>
       search_service (snd ?R) = replay env (concat segs) (search_service ?w1) \<and>
       printed (stdout (snd ?R)) = printed (stdout ?w1) @ response_errors (concat segs) \<and>
       cache (snd ?R) = cache ?w1 \<and>
       queue (snd ?R) = queue ?w1"
    by (rule conjunct2)
  then obtain segs where
    segs: "calls (snd ?R) = calls ?w1 @ concat segs \<and>
       list_all2 (partition_history env wiki_pages) spaces segs \<and>
       answers env (concat segs) (search_service ?w1) \<and>
       search_service (snd ?R) = replay env (concat segs) (search_service ?w1) \<and>
       printed (stdout (snd ?R)) = printed (stdout ?w1) @ response_errors (concat segs) \<and>
       cache (snd ?R) = cache ?w1 \<and>
       queue (snd ?R) = queue ?w1" ..
  from ok have res: "rebuild_index env spaces wiki_pages w =
      (None, set_value in_progress_key False (snd ?R))"
    by (simp add: rebuild_index_def case_prod_beta)
  have ex: "\<exists>segs. calls (snd (rebuild_index env spaces wiki_pages w)) =
         calls w @ [(SetValue in_progress_key True, None)] @ concat segs @
           [(SetValue in_progress_key False, None)] \<and>
       list_all2 (partition_history env wiki_pages) spaces segs \<and>
       answers env (concat segs) (search_service w) \<and>
       search_service (snd (rebuild_index env spaces wiki_pages w)) =
         replay env (concat segs) (search_service w) \<and>
       printed (stdout (snd (rebuild_index env spaces wiki_pages w))) =
         printed (stdout w) @ response_errors (concat segs)"
    apply (rule exI [of _ segs])
    using segs w1 by (simp add: res set_value_def)
  have c: "cache (snd (rebuild_index env spaces wiki_pages w)) =
      (cache w)(in_progress_key \<mapsto> False)"
    using segs w1 by (simp add: res set_value_def)
  have q: "queue (snd (rebuild_index env spaces wiki_pages w)) = queue w"
    using segs w1 by (simp add: res set_value_def)
  from ex c q show ?thesis by (simp add: res)
qed

theorem rebuild_index_isolates_failures_witness:
  "fst (rebuild_index test_env [''docs'', ''blog''] two_pages blocked_world) = None \<and>
   cache (snd (rebuild_index test_env [''docs'', ''blog''] two_pages blocked_world))
     in_progress_key = Some False \<and>
   stdout (snd (rebuild_index test_env [''docs'', ''blog''] two_pages blocked_world)) =
     [Printed ''WRONGTYPE''] \<and>
   search_service (snd (rebuild_index test_env [''docs'', ''blog''] two_pages blocked_world)) =
     \<lparr>indexes = [(''docs'', ''site1|wiki_page_search_docdocs:''),
                 (''blog'', ''site1|wiki_page_search_docblog:'')],
      hashes = [(''site1|wiki_page_search_docblog:p9'',
                  [(''title'', ''Post''), (''content'', ''News''), (''route'', ''blog/post'')])],
      plain_keys = [''site1|wiki_page_search_docdocs:p1'']\<rparr>"
proof -
  let ?res = "rebuild_index test_env [''docs'', ''blog''] two_pages blocked_world"
  note T = rebuild_index_isolates_failures [OF test_env_only_response_errors,
      of "[''docs'', ''blog'']" two_pages blocked_world]
  from T have ok: "fst ?res = None" by (rule conjunct1)
  from T [THEN conjunct2] have
    "cache (snd ?res) = (cache blocked_world)(in_progress_key \<mapsto> False)"
    by (rule conjunct1)
  then have flag: "cache (snd ?res) in_progress_key = Some False" by simp
  have out: "stdout (snd ?res) = [Printed ''WRONGTYPE'']"
    by (simp add: rebuild_example)
  have stored: "search_service (snd ?res) =
     \<lparr>indexes = [(''docs'', ''site1|wiki_page_search_docdocs:''),
                 (''blog'', ''site1|wiki_page_search_docblog:'')],
      hashes = [(''site1|wiki_page_search_docblog:p9'',
                  [(''title'', ''Post''), (''content'', ''News''), (''route'', ''blog/post'')])],
      plain_keys = [''site1|wiki_page_search_docdocs:p1'']\<rparr>"
    by (simp add: rebuild_example)
  from ok flag out stored show ?thesis by simp
qed

end
